theory Spec2Isabelle
  imports Complex_Main "HOL-Library.AList"
begin

section \<open>JavaScript numbers\<close>

text \<open>
  The viewer computes with JavaScript numbers. A division by zero does not raise: it
  yields \<open>Infinity\<close>, \<open>-Infinity\<close> or \<open>NaN\<close>. A finite value is a real and zero is the
  positive zero: every divisor of the viewer is a length, a size or a byte count. The
  operations below are exact. They serve the normalisation of a model, the percentage
  of a download and the aspect ratio, where what is stated is about a divisor that is
  zero and holds whatever the rounding. The touch handlers use the rounded operations
  of the next subsection.
\<close>

datatype jsnum = Num real | Infinity | NegInfinity | NaN

fun js_div :: "jsnum \<Rightarrow> jsnum \<Rightarrow> jsnum" where
  "js_div NaN b = NaN"
| "js_div a NaN = NaN"
| "js_div (Num a) (Num b) =
     (if b \<noteq> 0 then Num (a / b)
      else if a = 0 then NaN
      else if 0 < a then Infinity else NegInfinity)"
| "js_div (Num a) Infinity = Num 0"
| "js_div (Num a) NegInfinity = Num 0"
| "js_div Infinity (Num b) = (if 0 \<le> b then Infinity else NegInfinity)"
| "js_div NegInfinity (Num b) = (if 0 \<le> b then NegInfinity else Infinity)"
| "js_div a b = NaN"

fun js_mul :: "jsnum \<Rightarrow> jsnum \<Rightarrow> jsnum" where
  "js_mul NaN b = NaN"
| "js_mul a NaN = NaN"
| "js_mul (Num a) (Num b) = Num (a * b)"
| "js_mul (Num a) Infinity = (if a = 0 then NaN else if 0 < a then Infinity else NegInfinity)"
| "js_mul (Num a) NegInfinity = (if a = 0 then NaN else if 0 < a then NegInfinity else Infinity)"
| "js_mul Infinity (Num b) = (if b = 0 then NaN else if 0 < b then Infinity else NegInfinity)"
| "js_mul NegInfinity (Num b) = (if b = 0 then NaN else if 0 < b then NegInfinity else Infinity)"
| "js_mul Infinity Infinity = Infinity"
| "js_mul NegInfinity NegInfinity = Infinity"
| "js_mul a b = NegInfinity"

fun js_add :: "jsnum \<Rightarrow> jsnum \<Rightarrow> jsnum" where
  "js_add NaN b = NaN"
| "js_add a NaN = NaN"
| "js_add (Num a) (Num b) = Num (a + b)"
| "js_add Infinity NegInfinity = NaN"
| "js_add NegInfinity Infinity = NaN"
| "js_add (Num a) b = b"
| "js_add a b = a"

fun js_neg :: "jsnum \<Rightarrow> jsnum" where
  "js_neg (Num a) = Num (- a)"
| "js_neg Infinity = NegInfinity"
| "js_neg NegInfinity = Infinity"
| "js_neg NaN = NaN"

definition js_sub :: "jsnum \<Rightarrow> jsnum \<Rightarrow> jsnum" where
  "js_sub a b = js_add a (js_neg b)"

fun js_lt :: "jsnum \<Rightarrow> jsnum \<Rightarrow> bool" where
  "js_lt NaN b = False"
| "js_lt a NaN = False"
| "js_lt (Num a) (Num b) = (a < b)"
| "js_lt a Infinity = (a \<noteq> Infinity)"
| "js_lt NegInfinity b = (b \<noteq> NegInfinity)"
| "js_lt a b = False"

definition js_gt :: "jsnum \<Rightarrow> jsnum \<Rightarrow> bool" where
  "js_gt a b = js_lt b a"

text \<open>\<open>Math.max\<close> and \<open>Math.min\<close>: \<open>NaN\<close> when an argument is \<open>NaN\<close>.\<close>

definition js_max :: "jsnum \<Rightarrow> jsnum \<Rightarrow> jsnum" where
  "js_max a b = (if a = NaN \<or> b = NaN then NaN else if js_lt a b then b else a)"

definition js_min :: "jsnum \<Rightarrow> jsnum \<Rightarrow> jsnum" where
  "js_min a b = (if a = NaN \<or> b = NaN then NaN else if js_lt b a then b else a)"

text \<open>\<open>Math.round\<close>: the nearest integer, halves upwards.\<close>

fun js_round :: "jsnum \<Rightarrow> jsnum" where
  "js_round (Num a) = Num (of_int \<lfloor>a + 1 / 2\<rfloor>)"
| "js_round a = a"

text \<open>Truthiness of a number, as \<open>||\<close> and \<open>if\<close> test it: \<open>0\<close> and \<open>NaN\<close> are falsy.\<close>

fun js_truthy :: "jsnum \<Rightarrow> bool" where
  "js_truthy (Num a) = (a \<noteq> 0)"
| "js_truthy NaN = False"
| "js_truthy a = True"

definition js_or :: "jsnum \<Rightarrow> jsnum \<Rightarrow> jsnum" where
  "js_or a b = (if js_truthy a then a else b)"

text \<open>\<open>Math.sqrt\<close>: \<open>NaN\<close> below zero.\<close>

fun js_sqrt :: "jsnum \<Rightarrow> jsnum" where
  "js_sqrt (Num a) = (if a < 0 then NaN else Num (sqrt a))"
| "js_sqrt Infinity = Infinity"
| "js_sqrt a = NaN"

subsection \<open>Rounding\<close>

text \<open>
  A JavaScript number is a binary64 value, and an arithmetic operation, \<open>Math.sqrt\<close>
  included, returns its exact result rounded to the nearest binary64 value, a tie to the
  one with the even significand; a result that rounds to \<open>2^1024\<close> or beyond is an
  infinity. The binary64
  values around \<open>x\<close> are the multiples of \<open>2^e\<close>, where \<open>e\<close> is 52 below the binary
  exponent of \<open>x\<close> and at least \<open>-1074\<close>. The pinch of the touch handlers compares a
  computed distance with the zoom bounds; at the bounds rounding decides the test, so
  the touch handlers compute with the rounded operations.
\<close>

definition round_half_even :: "real \<Rightarrow> int" where
  "round_half_even q =
     (let f = \<lfloor>q\<rfloor> in
      if q - of_int f < 1 / 2 then f
      else if 1 / 2 < q - of_int f then f + 1
      else if even f then f else f + 1)"

definition ulp_exponent :: "real \<Rightarrow> int" where
  "ulp_exponent x = max \<lfloor>log 2 \<bar>x\<bar>\<rfloor> (- 1022) - 52"

definition round64 :: "real \<Rightarrow> jsnum" where
  "round64 x =
     (if x = 0 then Num 0
      else
        let u = 2 powr of_int (ulp_exponent x);
            y = of_int (round_half_even (x / u)) * u
        in if 2 ^ 1024 \<le> \<bar>y\<bar> then (if 0 < x then Infinity else NegInfinity) else Num y)"

fun rounded :: "jsnum \<Rightarrow> jsnum" where
  "rounded (Num x) = round64 x"
| "rounded a = a"

definition add64 :: "jsnum \<Rightarrow> jsnum \<Rightarrow> jsnum" where
  "add64 a b = rounded (js_add a b)"

definition sub64 :: "jsnum \<Rightarrow> jsnum \<Rightarrow> jsnum" where
  "sub64 a b = rounded (js_sub a b)"

definition mul64 :: "jsnum \<Rightarrow> jsnum \<Rightarrow> jsnum" where
  "mul64 a b = rounded (js_mul a b)"

definition div64 :: "jsnum \<Rightarrow> jsnum \<Rightarrow> jsnum" where
  "div64 a b = rounded (js_div a b)"

definition sqrt64 :: "jsnum \<Rightarrow> jsnum" where
  "sqrt64 a = rounded (js_sqrt a)"

subsection \<open>Vectors\<close>

record vector3 =
  vx :: jsnum
  vy :: jsnum
  vz :: jsnum

definition multiplyScalar :: "vector3 \<Rightarrow> jsnum \<Rightarrow> vector3" where
  "multiplyScalar v s = \<lparr>vx = js_mul (vx v) s, vy = js_mul (vy v) s, vz = js_mul (vz v) s\<rparr>"

definition vsub :: "vector3 \<Rightarrow> vector3 \<Rightarrow> vector3" where
  "vsub v w = \<lparr>vx = js_sub (vx v) (vx w), vy = js_sub (vy v) (vy w), vz = js_sub (vz v) (vz w)\<rparr>"

definition vec :: "real \<Rightarrow> real \<Rightarrow> real \<Rightarrow> vector3" where
  "vec a b c = \<lparr>vx = Num a, vy = Num b, vz = Num c\<rparr>"

text \<open>
  \<open>Vector3.length\<close>, which is \<open>Math.sqrt(x * x + y * y + z * z)\<close>, and
  \<open>Vector3.multiplyScalar\<close> as the pinch computes them: every operation rounded.
\<close>

definition vlength :: "vector3 \<Rightarrow> jsnum" where
  "vlength v =
     sqrt64 (add64 (add64 (mul64 (vx v) (vx v)) (mul64 (vy v) (vy v))) (mul64 (vz v) (vz v)))"

definition multiplyScalar64 :: "vector3 \<Rightarrow> jsnum \<Rightarrow> vector3" where
  "multiplyScalar64 v s = \<lparr>vx = mul64 (vx v) s, vy = mul64 (vy v) s, vz = mul64 (vz v) s\<rparr>"

section \<open>The loaded asset\<close>

text \<open>
  Objects of the rendering backend are identified by references. A material is an
  object that several meshes may share, so materials live in a store indexed by
  reference and a mesh holds references. \<open>Object3D.traverse\<close> visits an object and all
  its descendants, depth first; an asset is represented by the sequence of objects
  that \<open>traverse\<close> visits, the root first.
\<close>

type_synonym ref = nat

record std_material =
  mapTex :: "ref option"
  normalMap :: "ref option"
  roughnessMap :: "ref option"
  metalnessMap :: "ref option"
  wireframe :: bool
  color :: nat
  needsUpdate :: bool
  envMapIntensity :: jsnum
  roughness :: jsnum

type_synonym material_store = "ref \<Rightarrow> std_material"

text \<open>\<open>child.material\<close>: absent, one material, or an array of materials.\<close>

datatype material_slot = NoMaterial | Single ref | Array "ref list"

record object3d =
  isMesh :: bool
  geometry :: "ref option"
  material :: material_slot
  originalMap :: "ref option"
  castShadow :: bool
  receiveShadow :: bool

text \<open>
  \<open>gltf.scene\<close>. The fields \<open>box_center\<close> and \<open>box_size\<close> are what
  \<open>new THREE.Box3().setFromObject(model)\<close> measures (\<open>getCenter\<close>, \<open>getSize\<close>).
\<close>

record gltf_scene =
  object_id :: ref
  nodes :: "object3d list"
  materials :: material_store
  scale :: vector3
  position :: vector3
  box_center :: vector3
  box_size :: vector3

datatype light = AmbientLight | DirectionalLight bool | FillLight | RimLight

datatype scene_child = Light light | ModelRoot ref

text \<open>The calls into the rendering backend and the browser, in the order they are made.\<close>

datatype effect =
    SceneCreated | CameraCreated | RendererCreated | ControlsCreated
  | ListenerAdded string | ListenerRemoved string
  | SceneAdd scene_child | SceneRemove scene_child
  | GeometryDispose ref | TextureDispose ref | MaterialDispose ref
  | RendererDispose | ControlsDispose
  | FrameRequested nat | FrameCancelled nat
  | ControlsUpdate | Rendered
  | LoadRequested string | TimeoutSet nat
  | ConsoleError string

text \<open>A method either returns or throws (a \<open>TypeError\<close>: a property read on \<open>null\<close>);
  the state reached at the throw is kept.\<close>

datatype 'a outcome = Returned 'a | Threw 'a

fun andThen :: "'a outcome \<Rightarrow> ('a \<Rightarrow> 'a outcome) \<Rightarrow> 'a outcome" where
  "andThen (Returned s) f = f s"
| "andThen (Threw s) f = Threw s"

fun returned :: "'a outcome \<Rightarrow> bool" where
  "returned (Returned s) = True"
| "returned (Threw s) = False"

fun state_of :: "'a outcome \<Rightarrow> 'a" where
  "state_of (Returned s) = s"
| "state_of (Threw s) = s"

subsection \<open>disposeModel and disposeMaterial\<close>

definition dispose_texture :: "ref option \<Rightarrow> effect list" where
  "dispose_texture t = (case t of None \<Rightarrow> [] | Some r \<Rightarrow> [TextureDispose r])"

definition disposeMaterial :: "material_store \<Rightarrow> ref \<Rightarrow> effect list" where
  "disposeMaterial mats r =
     dispose_texture (mapTex (mats r)) @
     dispose_texture (normalMap (mats r)) @
     dispose_texture (roughnessMap (mats r)) @
     dispose_texture (metalnessMap (mats r)) @
     [MaterialDispose r]"

definition disposeChild :: "material_store \<Rightarrow> object3d \<Rightarrow> effect list" where
  "disposeChild mats child =
     (case geometry child of None \<Rightarrow> [] | Some g \<Rightarrow> [GeometryDispose g]) @
     (case material child of
        NoMaterial \<Rightarrow> []
      | Array rs \<Rightarrow> concat (map (disposeMaterial mats) rs)
      | Single r \<Rightarrow> disposeMaterial mats r)"

definition disposeModel :: "gltf_scene \<Rightarrow> effect list" where
  "disposeModel m = concat (map (disposeChild (materials m)) (nodes m))"

subsection \<open>The material pass of a completed load\<close>

text \<open>
  The callback of \<open>model.traverse\<close> in \<open>loadModel\<close>. On an array of materials
  \<open>child.material.map\<close> is undefined, so nothing is recorded, and the mobile settings
  are written on the array object, which no material reads.
\<close>

definition setupChild ::
  "bool \<Rightarrow> object3d \<Rightarrow> material_store \<Rightarrow> object3d \<times> material_store" where
  "setupChild mobile child mats =
     (if isMesh child then
        let child1 = child\<lparr>castShadow := \<not> mobile, receiveShadow := \<not> mobile\<rparr>;
            child2 =
              (case material child of
                 Single r \<Rightarrow>
                   (case mapTex (mats r) of
                      Some t \<Rightarrow> child1\<lparr>originalMap := Some t\<rparr>
                    | None \<Rightarrow> child1)
               | _ \<Rightarrow> child1);
            mats1 =
              (if mobile then
                 (case material child of
                    Single r \<Rightarrow>
                      mats(r := (mats r)\<lparr>envMapIntensity := Num (1 / 2),
                        roughness := js_min (js_add (roughness (mats r)) (Num (1 / 10))) (Num 1)\<rparr>)
                  | _ \<Rightarrow> mats)
               else mats)
        in (child2, mats1)
      else (child, mats))"

fun setupMaterials ::
  "bool \<Rightarrow> object3d list \<Rightarrow> material_store \<Rightarrow> object3d list \<times> material_store" where
  "setupMaterials mobile [] mats = ([], mats)"
| "setupMaterials mobile (c # cs) mats =
     (let (c1, mats1) = setupChild mobile c mats;
          (cs1, mats2) = setupMaterials mobile cs mats1
      in (c1 # cs1, mats2))"

subsection \<open>The traversal of setViewMode\<close>

text \<open>
  The callback of \<open>model.traverse\<close> in \<open>setViewMode\<close>. A mesh without a material
  throws at \<open>child.material.wireframe\<close>; on an array of materials the flag is written
  on the array object and \<open>child.material.map\<close> is undefined.
\<close>

definition applyViewMode ::
  "string \<Rightarrow> object3d \<Rightarrow> material_store \<Rightarrow> material_store outcome" where
  "applyViewMode mode child mats =
     (if \<not> isMesh child then Returned mats
      else case material child of
        NoMaterial \<Rightarrow> Threw mats
      | Array rs \<Rightarrow> Returned mats
      | Single r \<Rightarrow>
          if mode = ''wireframe'' then Returned (mats(r := (mats r)\<lparr>wireframe := True\<rparr>))
          else if mode = ''solid'' then
            Returned (mats(r :=
              (if mapTex (mats r) \<noteq> None
               then (mats r)\<lparr>wireframe := False, mapTex := None, color := 0x808080,
                      needsUpdate := True\<rparr>
               else (mats r)\<lparr>wireframe := False\<rparr>)))
          else
            Returned (mats(r :=
              (case originalMap child of
                 Some t \<Rightarrow> (mats r)\<lparr>wireframe := False, mapTex := Some t, needsUpdate := True\<rparr>
               | None \<Rightarrow> (mats r)\<lparr>wireframe := False\<rparr>))))"

fun traverseViewMode ::
  "string \<Rightarrow> object3d list \<Rightarrow> material_store \<Rightarrow> material_store outcome" where
  "traverseViewMode mode [] mats = Returned mats"
| "traverseViewMode mode (c # cs) mats =
     (case applyViewMode mode c mats of
        Returned mats1 \<Rightarrow> traverseViewMode mode cs mats1
      | Threw mats1 \<Rightarrow> Threw mats1)"

section \<open>The page and the viewer\<close>

text \<open>
  A canvas of the page with what the viewer reads and writes around it: its own
  measures, the measures of its parent container, the loading overlay (present with
  the number its progress line shows), the error overlay, the class \<open>active\<close> and the
  placeholder (if the container has one, whether it is hidden).
\<close>

record canvas_element =
  clientWidth :: nat
  clientHeight :: nat
  parentClientWidth :: nat
  parentOffsetWidth :: nat
  parentClientHeight :: nat
  parentOffsetHeight :: nat
  loadingProgress :: "jsnum option"
  errorText :: "string option"
  active :: bool
  placeholderHidden :: "bool option"

record scene3d =
  children :: "scene_child list"
  background :: nat

record camera3d =
  aspect :: jsnum
  cam_position :: vector3

record renderer3d =
  surfaceWidth :: jsnum
  surfaceHeight :: jsnum
  rendererPixelRatio :: real
  shadowMapEnabled :: bool

record orbit_controls =
  enableDamping :: bool
  dampingFactor :: real
  minDistance :: real
  maxDistance :: real
  enablePan :: bool
  autoRotate :: bool
  autoRotateSpeed :: real
  rotateSpeed :: real
  zoomSpeed :: real

text \<open>The fields of class \<open>ModelViewer\<close>; \<open>canvas\<close> refers to the element by its id.\<close>

record model_viewer =
  canvasId :: string
  canvas :: "string option"
  scene :: "scene3d option"
  camera :: "camera3d option"
  renderer :: "renderer3d option"
  controls :: "orbit_controls option"
  model :: "gltf_scene option"
  animationId :: "nat option"
  viewMode :: string
  isInitialized :: bool
  touchStartX :: real
  touchStartY :: real
  touchStartDistance :: jsnum
  isTouch :: bool
  isMobile :: bool
  pixelRatio :: real

text \<open>
  The browser: which libraries are loaded, the user agent, \<open>document.hidden\<close>, the
  elements by id, the pending animation frames (handle and the viewer whose \<open>animate\<close>
  is queued), the registered listeners (event and subscribing viewer) and the trace of
  effects.
\<close>

record browser =
  three_loaded :: bool
  orbit_loaded :: bool
  gltf_loader_loaded :: bool
  webgl :: bool
  mobile_agent :: bool
  devicePixelRatio :: real
  hidden :: bool
  elements :: "string \<Rightarrow> canvas_element option"
  frames :: "(nat \<times> string) list"
  frameCounter :: nat
  listeners :: "(string \<times> string) list"
  effects :: "(string \<times> effect) list"

type_synonym vstate = "model_viewer \<times> browser"

definition emit :: "string \<Rightarrow> effect list \<Rightarrow> browser \<Rightarrow> browser" where
  "emit cid es b = b\<lparr>effects := effects b @ map (Pair cid) es\<rparr>"

definition ModelViewer :: "string \<Rightarrow> browser \<Rightarrow> model_viewer" where
  "ModelViewer cid b =
     \<lparr>canvasId = cid,
      canvas = (case elements b cid of None \<Rightarrow> None | Some e \<Rightarrow> Some cid),
      scene = None, camera = None, renderer = None, controls = None, model = None,
      animationId = None, viewMode = ''textured'', isInitialized = False,
      touchStartX = 0, touchStartY = 0, touchStartDistance = Num 0, isTouch = False,
      isMobile = mobile_agent b,
      pixelRatio = (if mobile_agent b then min (devicePixelRatio b) 2 else devicePixelRatio b)\<rparr>"

definition canvas_el :: "model_viewer \<Rightarrow> browser \<Rightarrow> canvas_element option" where
  "canvas_el v b = (case canvas v of None \<Rightarrow> None | Some c \<Rightarrow> elements b c)"

definition set_canvas_el :: "model_viewer \<Rightarrow> canvas_element \<Rightarrow> browser \<Rightarrow> browser" where
  "set_canvas_el v e b =
     (case canvas v of None \<Rightarrow> b | Some c \<Rightarrow> b\<lparr>elements := (elements b)(c \<mapsto> e)\<rparr>)"

subsection \<open>Scene and animation frames\<close>

text \<open>
  \<open>Object3D.add\<close> detaches the object from its parent before it appends it;
  \<open>Object3D.remove\<close> takes the object out of the children.
\<close>

definition scene_add :: "scene_child \<Rightarrow> vstate \<Rightarrow> vstate outcome" where
  "scene_add x s =
     (case scene (fst s) of
        None \<Rightarrow> Threw s
      | Some sc \<Rightarrow>
          Returned ((fst s)\<lparr>scene := Some (sc\<lparr>children := remove1 x (children sc) @ [x]\<rparr>)\<rparr>,
                    emit (canvasId (fst s)) [SceneAdd x] (snd s)))"

definition scene_remove :: "scene_child \<Rightarrow> vstate \<Rightarrow> vstate outcome" where
  "scene_remove x s =
     (case scene (fst s) of
        None \<Rightarrow> Threw s
      | Some sc \<Rightarrow>
          Returned ((fst s)\<lparr>scene := Some (sc\<lparr>children := remove1 x (children sc)\<rparr>)\<rparr>,
                    emit (canvasId (fst s)) [SceneRemove x] (snd s)))"

text \<open>
  \<open>requestAnimationFrame\<close> increments the document's counter and returns it, so a
  handle is never \<open>0\<close>; \<open>cancelAnimationFrame\<close> drops the pending callback with that
  handle, if there is one.
\<close>

definition cancelAnimationFrame :: "string \<Rightarrow> nat \<Rightarrow> browser \<Rightarrow> browser" where
  "cancelAnimationFrame cid h b =
     emit cid [FrameCancelled h] (b\<lparr>frames := filter (\<lambda>f. fst f \<noteq> h) (frames b)\<rparr>)"

text \<open>\<open>if (this.animationId)\<close>: a handle is set and is not \<open>0\<close>.\<close>

definition has_handle :: "model_viewer \<Rightarrow> bool" where
  "has_handle v = (case animationId v of None \<Rightarrow> False | Some h \<Rightarrow> 0 < h)"

definition animate :: "vstate \<Rightarrow> vstate" where
  "animate s =
     (let v = fst s; b = snd s; cid = canvasId v; h = Suc (frameCounter b);
          b1 = emit cid [FrameRequested h]
                 (b\<lparr>frames := frames b @ [(h, cid)], frameCounter := h\<rparr>);
          v1 = v\<lparr>animationId := Some h\<rparr>
      in if hidden b then (v1, b1)
         else (v1, emit cid
                ((if controls v \<noteq> None then [ControlsUpdate] else []) @
                 (if renderer v \<noteq> None \<and> scene v \<noteq> None \<and> camera v \<noteq> None
                  then [Rendered] else [])) b1))"

text \<open>The browser runs the pending frame \<open>h\<close> of the viewer: the callback is \<open>animate\<close>.\<close>

definition run_frame :: "nat \<Rightarrow> vstate \<Rightarrow> vstate" where
  "run_frame h s =
     (if (h, canvasId (fst s)) \<in> set (frames (snd s))
      then animate (fst s, (snd s)\<lparr>frames := filter (\<lambda>f. fst f \<noteq> h) (frames (snd s))\<rparr>)
      else s)"

definition handleVisibilityChange :: "vstate \<Rightarrow> vstate" where
  "handleVisibilityChange s =
     (let v = fst s; b = snd s in
      if hidden b \<and> has_handle v then
        (case animationId v of
           None \<Rightarrow> s
         | Some h \<Rightarrow> (v\<lparr>animationId := None\<rparr>, cancelAnimationFrame (canvasId v) h b))
      else if \<not> hidden b \<and> model v \<noteq> None \<and> \<not> has_handle v then animate s
      else s)"

subsection \<open>Overlays\<close>

text \<open>
  \<open>showLoading\<close>, \<open>updateLoadingProgress\<close> and \<open>showError\<close> start with
  \<open>this.canvas.parentElement\<close>, which throws when the canvas was not found. The progress
  line shows \<open>Math.round(percent)\<close> followed by a percent sign.
\<close>

definition showLoading :: "bool \<Rightarrow> vstate \<Rightarrow> vstate outcome" where
  "showLoading show s =
     (case canvas_el (fst s) (snd s) of
        None \<Rightarrow> Threw s
      | Some e \<Rightarrow>
          if show then
            (if loadingProgress e = None
             then Returned (fst s, set_canvas_el (fst s) (e\<lparr>loadingProgress := Some (Num 0)\<rparr>) (snd s))
             else Returned s)
          else if loadingProgress e \<noteq> None
          then Returned (fst s, set_canvas_el (fst s) (e\<lparr>loadingProgress := None\<rparr>) (snd s))
          else Returned s)"

definition updateLoadingProgress :: "jsnum \<Rightarrow> vstate \<Rightarrow> vstate outcome" where
  "updateLoadingProgress percent s =
     (case canvas_el (fst s) (snd s) of
        None \<Rightarrow> Threw s
      | Some e \<Rightarrow>
          if loadingProgress e \<noteq> None
          then Returned (fst s,
                 set_canvas_el (fst s) (e\<lparr>loadingProgress := Some (js_round percent)\<rparr>) (snd s))
          else Returned s)"

definition showError :: "string \<Rightarrow> vstate \<Rightarrow> vstate outcome" where
  "showError message s =
     (case canvas_el (fst s) (snd s) of
        None \<Rightarrow> Threw s
      | Some e \<Rightarrow>
          if errorText e = None
          then Returned (fst s,
                 emit (canvasId (fst s)) [TimeoutSet 5000]
                   (set_canvas_el (fst s) (e\<lparr>errorText := Some message\<rparr>) (snd s)))
          else Returned s)"

subsection \<open>init\<close>

definition setupLighting :: "vstate \<Rightarrow> vstate outcome" where
  "setupLighting s =
     andThen (scene_add (Light AmbientLight) s) (\<lambda>s1.
     andThen (scene_add (Light (DirectionalLight (\<not> isMobile (fst s1)))) s1) (\<lambda>s2.
     andThen (scene_add (Light FillLight) s2) (\<lambda>s3.
     scene_add (Light RimLight) s3)))"

text \<open>\<open>new THREE.OrbitControls\<close> throws when the controls script is not loaded.\<close>

definition setupControls :: "vstate \<Rightarrow> vstate outcome" where
  "setupControls s =
     (if \<not> orbit_loaded (snd s) then Threw s
      else Returned
        ((fst s)\<lparr>controls := Some
            \<lparr>enableDamping = True, dampingFactor = 5 / 100, minDistance = 1, maxDistance = 10,
             enablePan = \<not> isMobile (fst s), autoRotate = False, autoRotateSpeed = 2,
             rotateSpeed = (if isMobile (fst s) then 1 / 2 else 1),
             zoomSpeed = (if isMobile (fst s) then 8 / 10 else 1)\<rparr>\<rparr>,
         emit (canvasId (fst s)) [ControlsCreated] (snd s)))"

definition addEventListener :: "string \<Rightarrow> string \<Rightarrow> browser \<Rightarrow> browser" where
  "addEventListener cid ev b =
     emit cid [ListenerAdded ev] (b\<lparr>listeners := listeners b @ [(ev, cid)]\<rparr>)"

definition removeEventListener :: "string \<Rightarrow> string \<Rightarrow> browser \<Rightarrow> browser" where
  "removeEventListener cid ev b =
     emit cid [ListenerRemoved ev] (b\<lparr>listeners := remove1 (ev, cid) (listeners b)\<rparr>)"

definition setupTouchHandlers :: "vstate \<Rightarrow> vstate" where
  "setupTouchHandlers s =
     (if \<not> isMobile (fst s) then s
      else (fst s,
            addEventListener (canvasId (fst s)) ''touchend''
              (addEventListener (canvasId (fst s)) ''touchmove''
                (addEventListener (canvasId (fst s)) ''touchstart'' (snd s)))))"

definition subscribe :: "vstate \<Rightarrow> vstate" where
  "subscribe s =
     ((fst s)\<lparr>isInitialized := True\<rparr>,
      addEventListener (canvasId (fst s)) ''visibilitychange''
        (addEventListener (canvasId (fst s)) ''resize'' (snd s)))"

text \<open>
  \<open>init\<close> of js/model-viewer.js. It measures the canvas itself; \<open>this.canvas.clientWidth\<close>
  throws when the canvas was not found, and \<open>new THREE.WebGLRenderer\<close> throws when
  no WebGL context can be had.
\<close>

definition init :: "vstate \<Rightarrow> vstate outcome" where
  "init s =
     (if isInitialized (fst s) then Returned s
      else
        let cid = canvasId (fst s);
            v1 = (fst s)\<lparr>scene := Some \<lparr>children = [], background = 0x0a0e27\<rparr>\<rparr>;
            b1 = emit cid [SceneCreated] (snd s)
        in case canvas_el (fst s) (snd s) of
             None \<Rightarrow> Threw (v1, b1)
           | Some e \<Rightarrow>
               let w = Num (real (clientWidth e)); h = Num (real (clientHeight e));
                   v2 = v1\<lparr>camera := Some \<lparr>aspect = js_div w h, cam_position = vec 0 1 3\<rparr>\<rparr>;
                   b2 = emit cid [CameraCreated] b1
               in if \<not> webgl b2 then Threw (v2, b2)
                  else
                    let v3 = v2\<lparr>renderer := Some
                               \<lparr>surfaceWidth = w, surfaceHeight = h,
                                rendererPixelRatio = pixelRatio v2,
                                shadowMapEnabled = \<not> isMobile v2\<rparr>\<rparr>;
                        b3 = emit cid [RendererCreated] b2
                    in andThen (andThen (setupLighting (v3, b3)) setupControls)
                         (\<lambda>s1. Returned (subscribe (setupTouchHandlers s1))))"

subsection \<open>handleResize\<close>

definition handleResize :: "vstate \<Rightarrow> vstate" where
  "handleResize s =
     (case (camera (fst s), renderer (fst s), canvas_el (fst s) (snd s)) of
        (Some cam, Some r, Some e) \<Rightarrow>
          let w = Num (real (clientWidth e)); h = Num (real (clientHeight e)) in
          ((fst s)\<lparr>camera := Some (cam\<lparr>aspect := js_div w h\<rparr>),
                   renderer := Some (r\<lparr>surfaceWidth := w, surfaceHeight := h\<rparr>)\<rparr>, snd s)
      | _ \<Rightarrow> s)"

subsection \<open>loadModel and its callbacks\<close>

text \<open>
  \<open>loadModel\<close> shows the loading overlay and hands the three callbacks to the loader;
  \<open>new THREE.GLTFLoader\<close> throws when the loader script is not loaded. The loader calls
  the progress callback any number of times and then the success or the error callback.
\<close>

definition loadModel :: "string \<Rightarrow> vstate \<Rightarrow> vstate outcome" where
  "loadModel modelPath s =
     andThen (showLoading True s) (\<lambda>s1.
       if \<not> gltf_loader_loaded (snd s1) then Threw s1
       else Returned (fst s1, emit (canvasId (fst s1)) [LoadRequested modelPath] (snd s1)))"

text \<open>\<open>if (this.model) { this.scene.remove(this.model); this.disposeModel(this.model); }\<close>\<close>

definition removeOldModel :: "vstate \<Rightarrow> vstate outcome" where
  "removeOldModel s =
     (case model (fst s) of
        None \<Rightarrow> Returned s
      | Some old \<Rightarrow>
          andThen (scene_remove (ModelRoot (object_id old)) s) (\<lambda>s1.
            Returned (fst s1, emit (canvasId (fst s1)) (disposeModel old) (snd s1))))"

text \<open>Centering and scaling in js/model-viewer.js: \<open>scale = 2 / maxDim\<close>.\<close>

definition maxDim :: "gltf_scene \<Rightarrow> jsnum" where
  "maxDim m = js_max (js_max (vx (box_size m)) (vy (box_size m))) (vz (box_size m))"

definition normalize :: "gltf_scene \<Rightarrow> gltf_scene" where
  "normalize m =
     (let sc = js_div (Num 2) (maxDim m)
      in m\<lparr>scale := multiplyScalar (scale m) sc,
           position := vsub (position m) (multiplyScalar (box_center m) sc)\<rparr>)"

definition prepare :: "bool \<Rightarrow> gltf_scene \<Rightarrow> gltf_scene" where
  "prepare mobile m =
     m\<lparr>nodes := fst (setupMaterials mobile (nodes m) (materials m)),
       materials := snd (setupMaterials mobile (nodes m) (materials m))\<rparr>"

definition startAutoRotate :: "vstate \<Rightarrow> vstate outcome" where
  "startAutoRotate s =
     (case controls (fst s) of
        None \<Rightarrow> Threw s
      | Some c \<Rightarrow>
          Returned ((fst s)\<lparr>controls := Some (c\<lparr>autoRotate := True\<rparr>)\<rparr>,
                    emit (canvasId (fst s)) [TimeoutSet 2000] (snd s)))"

definition loadModel_onLoad :: "gltf_scene \<Rightarrow> vstate \<Rightarrow> vstate outcome" where
  "loadModel_onLoad gltf s =
     andThen (removeOldModel s) (\<lambda>s1.
     andThen (scene_add (ModelRoot (object_id gltf))
                ((fst s1)\<lparr>model := Some (prepare (isMobile (fst s1)) (normalize gltf))\<rparr>, snd s1))
       (\<lambda>s2.
     andThen (showLoading False s2) (\<lambda>s3.
     startAutoRotate (if \<not> has_handle (fst s3) then animate s3 else s3))))"

text \<open>The callback of the timer set by a completed load.\<close>

definition stopAutoRotate :: "vstate \<Rightarrow> vstate outcome" where
  "stopAutoRotate s =
     (case controls (fst s) of
        None \<Rightarrow> Threw s
      | Some c \<Rightarrow> Returned ((fst s)\<lparr>controls := Some (c\<lparr>autoRotate := False\<rparr>)\<rparr>, snd s))"

text \<open>A progress event carries two unsigned integers.\<close>

record progress_event =
  loaded :: nat
  total :: nat

definition percent :: "progress_event \<Rightarrow> jsnum" where
  "percent progress =
     js_mul (js_div (Num (real (loaded progress))) (Num (real (total progress)))) (Num 100)"

definition loadModel_onProgress :: "progress_event \<Rightarrow> vstate \<Rightarrow> vstate outcome" where
  "loadModel_onProgress progress s = updateLoadingProgress (percent progress) s"

definition loadModel_onError :: "vstate \<Rightarrow> vstate outcome" where
  "loadModel_onError s =
     andThen (showError ''Failed to load 3D model''
                (fst s, emit (canvasId (fst s)) [ConsoleError ''Error loading model:''] (snd s)))
       (showLoading False)"

subsection \<open>setViewMode\<close>

definition setViewMode :: "string \<Rightarrow> model_viewer \<Rightarrow> model_viewer outcome" where
  "setViewMode mode v =
     (case model v of
        None \<Rightarrow> Returned (v\<lparr>viewMode := mode\<rparr>)
      | Some m \<Rightarrow>
          (case traverseViewMode mode (nodes m) (materials m) of
             Returned mats \<Rightarrow> Returned (v\<lparr>viewMode := mode, model := Some (m\<lparr>materials := mats\<rparr>)\<rparr>)
           | Threw mats \<Rightarrow> Threw (v\<lparr>viewMode := mode, model := Some (m\<lparr>materials := mats\<rparr>)\<rparr>)))"

subsection \<open>dispose\<close>

text \<open>
  Every read of \<open>dispose\<close> is guarded, so it has no throwing branch. It cancels the
  frame whose handle is in \<open>animationId\<close> and leaves the field as it is.
\<close>

definition dispose :: "vstate \<Rightarrow> vstate" where
  "dispose s =
     (let v = fst s; cid = canvasId v;
          b1 = (case animationId v of
                  None \<Rightarrow> snd s
                | Some h \<Rightarrow> if 0 < h then cancelAnimationFrame cid h (snd s) else snd s);
          b2 = removeEventListener cid ''visibilitychange'' (removeEventListener cid ''resize'' b1);
          b3 = (case model v of None \<Rightarrow> b2 | Some m \<Rightarrow> emit cid (disposeModel m) b2);
          b4 = (if renderer v \<noteq> None then emit cid [RendererDispose] b3 else b3);
          b5 = (if controls v \<noteq> None then emit cid [ControlsDispose] b4 else b4)
      in (v\<lparr>scene := None, camera := None, renderer := None, controls := None, model := None\<rparr>,
          b5))"

subsection \<open>Touch handlers\<close>

record touch =
  clientX :: real
  clientY :: real

text \<open>\<open>Math.sqrt(dx * dx + dy * dy)\<close> for the two fingers.\<close>

definition touch_distance :: "touch \<Rightarrow> touch \<Rightarrow> jsnum" where
  "touch_distance t0 t1 =
     (let dx = sub64 (Num (clientX t0)) (Num (clientX t1));
          dy = sub64 (Num (clientY t0)) (Num (clientY t1))
      in sqrt64 (add64 (mul64 dx dx) (mul64 dy dy)))"

definition touchstart :: "touch list \<Rightarrow> model_viewer \<Rightarrow> model_viewer" where
  "touchstart touches v =
     (case touches of
        [t0] \<Rightarrow> v\<lparr>isTouch := True, touchStartX := clientX t0, touchStartY := clientY t0\<rparr>
      | [t0, t1] \<Rightarrow> v\<lparr>isTouch := True, touchStartDistance := touch_distance t0 t1\<rparr>
      | _ \<Rightarrow> v\<lparr>isTouch := True\<rparr>)"

text \<open>
  The pinch of \<open>touchmove\<close>, for the new distance between the two fingers: \<open>scale\<close> is
  \<open>distance / this.touchStartDistance\<close>, \<open>newDistance\<close> is the length of the camera
  position divided by \<open>scale\<close>, and the position is multiplied by \<open>1 / scale\<close>. The
  reference distance is written inside the test of the zoom bounds, after the camera.
\<close>

definition pinch :: "jsnum \<Rightarrow> model_viewer \<Rightarrow> model_viewer outcome" where
  "pinch distance v =
     (let sc = div64 distance (touchStartDistance v) in
      case camera v of
        None \<Rightarrow> Threw v
      | Some cam \<Rightarrow>
          let newDistance = div64 (vlength (cam_position cam)) sc in
          (case controls v of
             None \<Rightarrow> Threw v
           | Some c \<Rightarrow>
               if js_gt newDistance (Num (minDistance c)) \<and> js_lt newDistance (Num (maxDistance c))
               then Returned
                 (v\<lparr>camera := Some (cam\<lparr>cam_position :=
                        multiplyScalar64 (cam_position cam) (div64 (Num 1) sc)\<rparr>),
                    touchStartDistance := distance\<rparr>)
               else Returned v))"

definition touchmove :: "touch list \<Rightarrow> model_viewer \<Rightarrow> model_viewer outcome" where
  "touchmove touches v =
     (if \<not> isTouch v then Returned v
      else case touches of
        [t0, t1] \<Rightarrow>
          if js_gt (touchStartDistance v) (Num 0) then pinch (touch_distance t0 t1) v
          else Returned v
      | _ \<Rightarrow> Returned v)"

definition touchend :: "model_viewer \<Rightarrow> model_viewer" where
  "touchend v = v\<lparr>isTouch := False, touchStartDistance := Num 0\<rparr>"

subsection \<open>The registry and the global functions\<close>

text \<open>
  \<open>viewers\<close> is a plain object, \<open>const viewers = {}\<close>. Its own properties are the
  registered viewers. A read \<open>viewers[canvasId]\<close> of a name that is not an own property
  goes on to \<open>Object.prototype\<close>, whose properties are functions, and for \<open>__proto__\<close>
  the prototype itself: values that are truthy and are no viewer.
\<close>

type_synonym registry = "(string \<times> model_viewer) list"

type_synonym world = "registry \<times> browser"

definition Object_prototype :: "string list" where
  "Object_prototype =
     [''constructor'', ''__defineGetter__'', ''__defineSetter__'', ''hasOwnProperty'',
      ''__lookupGetter__'', ''__lookupSetter__'', ''isPrototypeOf'', ''propertyIsEnumerable'',
      ''toString'', ''valueOf'', ''__proto__'', ''toLocaleString'']"

datatype property = Undefined | Own model_viewer | Inherited

definition viewers_get :: "registry \<Rightarrow> string \<Rightarrow> property" where
  "viewers_get vs cid =
     (case map_of vs cid of
        Some v \<Rightarrow> Own v
      | None \<Rightarrow> if cid \<in> set Object_prototype then Inherited else Undefined)"

text \<open>
  The registry lists the own properties in the order in which \<open>Object.values\<close> visits
  them: the array indices first, ascending, then the other names in the order of their
  creation. An array index is the decimal numeral, without a leading zero, of a number
  below \<open>2^32 - 1\<close>.
\<close>

fun decimal :: "nat \<Rightarrow> string \<Rightarrow> nat option" where
  "decimal n [] = Some n"
| "decimal n (c # cs) =
     (if 48 \<le> (of_char c :: nat) \<and> (of_char c :: nat) \<le> 57
      then decimal (10 * n + (of_char c - 48)) cs else None)"

definition array_index :: "string \<Rightarrow> nat option" where
  "array_index k =
     (case k of
        [] \<Rightarrow> None
      | c # cs \<Rightarrow>
          if c = CHR ''0'' \<and> cs \<noteq> [] then None
          else (case decimal 0 k of
                  None \<Rightarrow> None
                | Some n \<Rightarrow> if n < 2 ^ 32 - 1 then Some n else None))"

fun put_index :: "nat \<Rightarrow> string \<Rightarrow> model_viewer \<Rightarrow> registry \<Rightarrow> registry" where
  "put_index n k v [] = [(k, v)]"
| "put_index n k v (p # ps) =
     (case array_index (fst p) of
        Some m \<Rightarrow> if m < n then p # put_index n k v ps else (k, v) # p # ps
      | None \<Rightarrow> (k, v) # p # ps)"

text \<open>\<open>viewers[k] = v\<close>, for a name that does not reach a setter of the prototype.\<close>

definition viewers_put :: "string \<Rightarrow> model_viewer \<Rightarrow> registry \<Rightarrow> registry" where
  "viewers_put k v vs =
     (if map_of vs k \<noteq> None then AList.update k v vs
      else case array_index k of
             Some n \<Rightarrow> put_index n k v vs
           | None \<Rightarrow> vs @ [(k, v)])"

text \<open>
  A method called on \<open>viewers[canvasId]\<close> changes the registered object in place, also
  when it throws.
\<close>

fun on_viewer :: "string \<Rightarrow> registry \<Rightarrow> vstate outcome \<Rightarrow> world outcome" where
  "on_viewer cid vs (Returned s) = Returned (AList.update cid (fst s) vs, snd s)"
| "on_viewer cid vs (Threw s) = Threw (AList.update cid (fst s) vs, snd s)"

text \<open>
  The lines "initialize viewer if needed" of \<open>load3DModel\<close>. The test is
  \<open>!viewers[canvasId]\<close>: a viewer is made only when the read yields \<open>undefined\<close>.
\<close>

definition get_or_create :: "string \<Rightarrow> world \<Rightarrow> world outcome" where
  "get_or_create cid w =
     (case viewers_get (fst w) cid of
        Undefined \<Rightarrow>
          on_viewer cid (viewers_put cid (ModelViewer cid (snd w)) (fst w))
            (init (ModelViewer cid (snd w), snd w))
      | _ \<Rightarrow> Returned w)"

text \<open>
  \<open>load3DModel\<close>, without its last lines, which hide the button that was clicked when
  one is passed. \<open>canvas.parentElement\<close> throws when the page has no such canvas; the
  call \<open>viewers[canvasId].loadModel(modelPath)\<close> comes after the canvas was shown, and
  throws when the read yields a value of the prototype, which has no \<open>loadModel\<close>.
\<close>

definition load3DModel :: "string \<Rightarrow> string \<Rightarrow> world \<Rightarrow> world outcome" where
  "load3DModel cid modelPath w =
     (if \<not> three_loaded (snd w)
      then Returned (fst w, emit cid [ConsoleError ''Three.js is not loaded''] (snd w))
      else
        andThen (get_or_create cid w) (\<lambda>w1.
          case elements (snd w1) cid of
            None \<Rightarrow> Threw w1
          | Some e \<Rightarrow>
              let b1 = (snd w1)\<lparr>elements := (elements (snd w1))(cid \<mapsto>
                         e\<lparr>active := True,
                           placeholderHidden := map_option (\<lambda>x. True) (placeholderHidden e)\<rparr>)\<rparr>
              in case viewers_get (fst w1) cid of
                   Own v \<Rightarrow> on_viewer cid (fst w1) (loadModel modelPath (v, b1))
                 | _ \<Rightarrow> Threw (fst w1, b1)))"

text \<open>The handler of \<open>beforeunload\<close>: every registered viewer is disposed.\<close>

fun disposeAll :: "registry \<Rightarrow> browser \<Rightarrow> world" where
  "disposeAll [] b = ([], b)"
| "disposeAll (kv # vs) b =
     (let s1 = dispose (snd kv, b); w = disposeAll vs (snd s1)
      in ((fst kv, fst s1) # fst w, snd w))"

definition beforeunload :: "world \<Rightarrow> world" where
  "beforeunload w = disposeAll (fst w) (snd w)"

subsection \<open>The later revision of the viewer\<close>

text \<open>
  The repository holds a later revision of js/model-viewer.js. It differs in the guards
  below: the percentage and the scale test their divisor, \<open>init\<close> measures the parent
  container with a fallback of 400, catches the failure of the renderer and reports
  it, and \<open>setupControls\<close> returns when the controls script is missing.
\<close>

definition percent_guarded :: "progress_event \<Rightarrow> jsnum" where
  "percent_guarded progress =
     (if 0 < total progress
      then js_mul (js_div (Num (real (loaded progress))) (Num (real (total progress)))) (Num 100)
      else Num 0)"

definition normalize_guarded :: "gltf_scene \<Rightarrow> gltf_scene" where
  "normalize_guarded m =
     (let sc = (if js_gt (maxDim m) (Num 0) then js_div (Num 2) (maxDim m) else Num 1)
      in m\<lparr>scale := multiplyScalar (scale m) sc,
           position := vsub (position m) (multiplyScalar (box_center m) sc)\<rparr>)"

definition container_width :: "canvas_element \<Rightarrow> jsnum" where
  "container_width e =
     js_or (js_or (Num (real (parentClientWidth e))) (Num (real (parentOffsetWidth e)))) (Num 400)"

definition container_height :: "canvas_element \<Rightarrow> jsnum" where
  "container_height e =
     js_or (js_or (Num (real (parentClientHeight e))) (Num (real (parentOffsetHeight e)))) (Num 400)"

definition setupControls_guarded :: "vstate \<Rightarrow> vstate" where
  "setupControls_guarded s =
     (if \<not> orbit_loaded (snd s)
      then (fst s, emit (canvasId (fst s)) [ConsoleError ''OrbitControls not loaded!''] (snd s))
      else state_of (setupControls s))"

definition init_guarded :: "vstate \<Rightarrow> vstate outcome" where
  "init_guarded s =
     (if isInitialized (fst s) then Returned s
      else
        let cid = canvasId (fst s);
            v1 = (fst s)\<lparr>scene := Some \<lparr>children = [], background = 0x0a0e27\<rparr>\<rparr>;
            b1 = emit cid [SceneCreated] (snd s)
        in case canvas_el (fst s) (snd s) of
             None \<Rightarrow> Threw (v1, b1)
           | Some e \<Rightarrow>
               let w = container_width e; h = container_height e;
                   v2 = v1\<lparr>camera := Some \<lparr>aspect = js_div w h, cam_position = vec 0 1 3\<rparr>\<rparr>;
                   b2 = emit cid [CameraCreated] b1
               in if \<not> webgl b2
                  then showError ''WebGL not supported''
                         (v2, emit cid [ConsoleError ''Failed to create WebGL renderer:''] b2)
                  else
                    let v3 = v2\<lparr>renderer := Some
                               \<lparr>surfaceWidth = w, surfaceHeight = h,
                                rendererPixelRatio = pixelRatio v2,
                                shadowMapEnabled = \<not> isMobile v2\<rparr>\<rparr>;
                        b3 = emit cid [RendererCreated] b2
                    in andThen (setupLighting (v3, b3))
                         (\<lambda>s1. Returned (subscribe (setupTouchHandlers (setupControls_guarded s1)))))"

section \<open>Runs of one viewer\<close>

text \<open>
  What can happen to a viewer, one event at a time: a method call, a callback of the
  loader or of a timer, an animation frame, an event of the window, the document or
  the canvas. An event is delivered to a handler only while the handler is
  subscribed; a callback that throws leaves the state it reached.
\<close>

datatype action =
    Init | LoadModel string
  | LoadCompleted gltf_scene | LoadProgress progress_event | LoadFailed
  | SetViewMode string | WindowResize | VisibilityChange bool | AnimationFrame nat
  | TouchStart "touch list" | TouchMove "touch list" | TouchEnd
  | AutoRotateTimeout | Dispose

definition subscribed :: "string \<Rightarrow> vstate \<Rightarrow> bool" where
  "subscribed ev s = ((ev, canvasId (fst s)) \<in> set (listeners (snd s)))"

fun step :: "action \<Rightarrow> vstate \<Rightarrow> vstate" where
  "step Init s = state_of (init s)"
| "step (LoadModel p) s = state_of (loadModel p s)"
| "step (LoadCompleted g) s = state_of (loadModel_onLoad g s)"
| "step (LoadProgress p) s = state_of (loadModel_onProgress p s)"
| "step LoadFailed s = state_of (loadModel_onError s)"
| "step (SetViewMode m) s = (state_of (setViewMode m (fst s)), snd s)"
| "step WindowResize s = (if subscribed ''resize'' s then handleResize s else s)"
| "step (VisibilityChange h) s =
     (if subscribed ''visibilitychange'' s
      then handleVisibilityChange (fst s, (snd s)\<lparr>hidden := h\<rparr>)
      else (fst s, (snd s)\<lparr>hidden := h\<rparr>))"
| "step (AnimationFrame h) s = run_frame h s"
| "step (TouchStart ts) s =
     (if subscribed ''touchstart'' s then (touchstart ts (fst s), snd s) else s)"
| "step (TouchMove ts) s =
     (if subscribed ''touchmove'' s then (state_of (touchmove ts (fst s)), snd s) else s)"
| "step TouchEnd s = (if subscribed ''touchend'' s then (touchend (fst s), snd s) else s)"
| "step AutoRotateTimeout s = state_of (stopAutoRotate s)"
| "step Dispose s = dispose s"

fun run :: "action list \<Rightarrow> vstate \<Rightarrow> vstate" where
  "run [] s = s"
| "run (a # as) s = run as (step a s)"

text \<open>The models attached to the scene, the current model, and the pending frames of
  the viewer.\<close>

fun model_roots :: "scene_child list \<Rightarrow> ref list" where
  "model_roots [] = []"
| "model_roots (ModelRoot r # cs) = r # model_roots cs"
| "model_roots (Light l # cs) = model_roots cs"

definition attached :: "model_viewer \<Rightarrow> ref list" where
  "attached v = (case scene v of None \<Rightarrow> [] | Some sc \<Rightarrow> model_roots (children sc))"

definition current :: "model_viewer \<Rightarrow> ref list" where
  "current v = (case model v of None \<Rightarrow> [] | Some m \<Rightarrow> [object_id m])"

definition pending_frames :: "vstate \<Rightarrow> nat list" where
  "pending_frames s = map fst (filter (\<lambda>f. snd f = canvasId (fst s)) (frames (snd s)))"

text \<open>In a trace, some \<open>y\<close> stands after the first \<open>x\<close>.\<close>

definition precedes :: "'a \<Rightarrow> 'a \<Rightarrow> 'a list \<Rightarrow> bool" where
  "precedes x y xs = (y \<in> set (dropWhile (\<lambda>z. z \<noteq> x) xs))"

definition slot_refs :: "material_slot \<Rightarrow> ref list" where
  "slot_refs m = (case m of NoMaterial \<Rightarrow> [] | Single r \<Rightarrow> [r] | Array rs \<Rightarrow> rs)"

definition textures :: "std_material \<Rightarrow> ref list" where
  "textures m =
     (case mapTex m of None \<Rightarrow> [] | Some t \<Rightarrow> [t]) @
     (case normalMap m of None \<Rightarrow> [] | Some t \<Rightarrow> [t]) @
     (case roughnessMap m of None \<Rightarrow> [] | Some t \<Rightarrow> [t]) @
     (case metalnessMap m of None \<Rightarrow> [] | Some t \<Rightarrow> [t])"

section \<open>Invariants of a run\<close>

text \<open>
  What the frame bookkeeping of a viewer consists of, and its invariant: every pending
  frame of the viewer carries the handle stored in \<open>animationId\<close>.
\<close>

definition fview :: "vstate \<Rightarrow> string \<times> nat option \<times> (nat \<times> string) list \<times> nat" where
  "fview s = (canvasId (fst s), animationId (fst s), frames (snd s), frameCounter (snd s))"

definition frames_ok :: "vstate \<Rightarrow> bool" where
  "frames_ok s =
     (\<forall>f \<in> set (frames (snd s)).
        snd f = canvasId (fst s) \<longrightarrow> animationId (fst s) = Some (fst f) \<and> 0 < fst f)"

text \<open>
  The invariant of the scene: no model is attached, or exactly the current one is;
  \<open>aview\<close> is what it reads. \<open>mview\<close> holds the fields that a completed load changes
  only where it stores the asset. \<open>appends s s'\<close>: the trace of \<open>s'\<close> extends the trace
  of \<open>s\<close> by effects of the same viewer.
\<close>

definition scene_ok :: "model_viewer \<Rightarrow> bool" where
  "scene_ok v = (attached v = [] \<or> attached v = current v)"

definition aview :: "vstate \<Rightarrow> ref list \<times> ref list" where
  "aview s = (attached (fst s), current (fst s))"

definition mview :: "vstate \<Rightarrow> gltf_scene option \<times> bool \<times> string" where
  "mview s = (model (fst s), isMobile (fst s), canvasId (fst s))"

definition appends :: "vstate \<Rightarrow> vstate \<Rightarrow> bool" where
  "appends s s' =
     (canvasId (fst s') = canvasId (fst s) \<and>
      (\<exists>es. effects (snd s') = effects (snd s) @ map (Pair (canvasId (fst s))) es))"

text \<open>
  What a completed load leaves on a part: \<open>records h c\<close> says that \<open>c\<close>, if it is a
  mesh with one material that has a texture map in the store \<open>h\<close>, carries that map as
  its \<open>originalMap\<close>; \<open>same_part\<close> relates a part to itself after the material pass.
\<close>

definition records :: "material_store \<Rightarrow> object3d \<Rightarrow> bool" where
  "records h0 c =
     (\<forall>r t. isMesh c \<and> material c = Single r \<and> mapTex (h0 r) = Some t \<longrightarrow> originalMap c = Some t)"

definition same_part :: "object3d \<Rightarrow> object3d \<Rightarrow> bool" where
  "same_part c c' = (isMesh c' = isMesh c \<and> material c' = material c \<and> geometry c' = geometry c)"

section \<open>A page, two assets and some viewers\<close>

text \<open>A canvas in a container that measures nothing yet, and one that is laid out.\<close>

definition collapsed :: canvas_element where
  "collapsed =
     \<lparr>clientWidth = 0, clientHeight = 0, parentClientWidth = 0, parentOffsetWidth = 0,
      parentClientHeight = 0, parentOffsetHeight = 0, loadingProgress = None,
      errorText = None, active = False, placeholderHidden = Some False\<rparr>"

definition laid_out :: canvas_element where
  "laid_out =
     \<lparr>clientWidth = 800, clientHeight = 600, parentClientWidth = 800, parentOffsetWidth = 802,
      parentClientHeight = 600, parentOffsetHeight = 602, loadingProgress = None,
      errorText = None, active = False, placeholderHidden = Some False\<rparr>"

definition page_with :: "canvas_element \<Rightarrow> browser" where
  "page_with e =
     \<lparr>three_loaded = True, orbit_loaded = True, gltf_loader_loaded = True, webgl = True,
      mobile_agent = False, devicePixelRatio = 1, hidden = False,
      elements = (\<lambda>x. None)(''viewer'' \<mapsto> e),
      frames = [], frameCounter = 0, listeners = [], effects = []\<rparr>"

definition brick :: std_material where
  "brick =
     \<lparr>mapTex = Some 7, normalMap = Some 8, roughnessMap = None, metalnessMap = None,
      wireframe = False, color = 0xffffff, needsUpdate = False,
      envMapIntensity = Num 1, roughness = Num 1\<rparr>"

definition group_node :: object3d where
  "group_node =
     \<lparr>isMesh = False, geometry = None, material = NoMaterial, originalMap = None,
      castShadow = False, receiveShadow = False\<rparr>"

definition wall_mesh :: object3d where
  "wall_mesh =
     \<lparr>isMesh = True, geometry = Some 3, material = Single 5, originalMap = None,
      castShadow = False, receiveShadow = False\<rparr>"

definition house :: "ref \<Rightarrow> gltf_scene" where
  "house r =
     \<lparr>object_id = r, nodes = [group_node, wall_mesh], materials = (\<lambda>x. brick),
      scale = vec 1 1 1, position = vec 0 0 0,
      box_center = vec 0 1 0, box_size = vec 2 4 2\<rparr>"

text \<open>An asset without geometry: its bounding box is empty, so its size is zero.\<close>

definition empty_asset :: gltf_scene where
  "empty_asset =
     \<lparr>object_id = 9, nodes = [group_node], materials = (\<lambda>x. brick),
      scale = vec 1 1 1, position = vec 0 0 0,
      box_center = vec 0 0 0, box_size = vec 0 0 0\<rparr>"

text \<open>
  A viewer that waits for its asset, the same viewer after the asset has arrived, and a
  registry that holds it; a viewer with a model and a running loop.
\<close>

definition ready :: vstate where
  "ready =
     run [Init, LoadModel ''house.glb'']
       (ModelViewer ''viewer'' (page_with laid_out), page_with laid_out)"

definition loaded_viewer :: model_viewer where
  "loaded_viewer = fst (state_of (loadModel_onLoad (house 1) ready))"

definition registered :: world where
  "registered =
     ([(''viewer'', loaded_viewer)], snd (state_of (loadModel_onLoad (house 1) ready)))"


text \<open>A viewer on a touch device in the middle of a pinch, and a finger on the canvas.\<close>

definition pinching :: model_viewer where
  "pinching =
     (ModelViewer ''viewer'' (page_with laid_out))
       \<lparr>camera := Some \<lparr>aspect = Num (4 / 3), cam_position = vec 0 0 2\<rparr>,
        controls := Some \<lparr>enableDamping = True, dampingFactor = 5 / 100, minDistance = 1,
          maxDistance = 10, enablePan = False, autoRotate = False, autoRotateSpeed = 2,
          rotateSpeed = 1 / 2, zoomSpeed = 8 / 10\<rparr>,
        isTouch := True, touchStartDistance := Num 20, isMobile := True\<rparr>"

definition finger :: "real \<Rightarrow> real \<Rightarrow> touch" where
  "finger a b = \<lparr>clientX = a, clientY = b\<rparr>"


section \<open>Evaluation\<close>

lemmas eval_defs =
  init_def ModelViewer_def page_with_def canvas_el_def set_canvas_el_def collapsed_def
  laid_out_def emit_def Let_def setupLighting_def scene_add_def scene_remove_def
  setupControls_def subscribe_def setupTouchHandlers_def addEventListener_def
  removeEventListener_def vec_def loadModel_def showLoading_def loadModel_onLoad_def
  removeOldModel_def prepare_def normalize_def setupChild_def house_def group_node_def
  wall_mesh_def brick_def maxDim_def js_max_def js_min_def multiplyScalar_def vsub_def
  js_sub_def has_handle_def animate_def startAutoRotate_def dispose_def
  cancelAnimationFrame_def pending_frames_def disposeModel_def disposeChild_def
  disposeMaterial_def dispose_texture_def

section \<open>The render loop\<close>

lemma andThen_state:
  "P (state_of r) \<Longrightarrow> (\<And>s. P s \<Longrightarrow> P (state_of (f s))) \<Longrightarrow> P (state_of (andThen r f))"
  by (cases r) simp_all

lemma fview_emit [simp]: "fview (v, emit cid es b) = fview (v, b)"
  by (simp add: fview_def emit_def)

lemma fview_scene_add: "fview (state_of (scene_add x s)) = fview s"
  by (simp add: scene_add_def fview_def emit_def split: option.splits)

lemma fview_scene_remove: "fview (state_of (scene_remove x s)) = fview s"
  by (simp add: scene_remove_def fview_def emit_def split: option.splits)

lemma fview_showLoading: "fview (state_of (showLoading x s)) = fview s"
  by (simp add: showLoading_def fview_def set_canvas_el_def split: option.splits)

lemma fview_updateLoadingProgress: "fview (state_of (updateLoadingProgress x s)) = fview s"
  by (simp add: updateLoadingProgress_def fview_def set_canvas_el_def split: option.splits)

lemma fview_showError: "fview (state_of (showError x s)) = fview s"
  by (simp add: showError_def fview_def set_canvas_el_def emit_def split: option.splits)

lemma fview_setupLighting: "fview (state_of (setupLighting s)) = fview s"
  unfolding setupLighting_def
  by (intro andThen_state[where P="\<lambda>t. fview t = fview s"]) (simp_all add: fview_scene_add)

lemma fview_setupControls: "fview (state_of (setupControls s)) = fview s"
  by (simp add: setupControls_def fview_def emit_def)

lemma fview_setupTouchHandlers: "fview (setupTouchHandlers s) = fview s"
  by (simp add: setupTouchHandlers_def fview_def addEventListener_def emit_def)

lemma fview_subscribe: "fview (subscribe s) = fview s"
  by (simp add: subscribe_def fview_def addEventListener_def emit_def)

lemma fview_init: "fview (state_of (init s)) = fview s"
proof (cases "isInitialized (fst s)")
  case True then show ?thesis by (simp add: init_def)
next
  case False
  show ?thesis
  proof (cases "canvas_el (fst s) (snd s)")
    case None with False show ?thesis by (simp add: init_def fview_def emit_def)
  next
    case (Some e)
    show ?thesis
    proof (cases "webgl (snd s)")
      case w: False
      with False Some show ?thesis by (simp add: init_def fview_def emit_def Let_def)
    next
      case w: True
      have "\<And>t. fview t = fview s \<Longrightarrow>
         fview (state_of (andThen (andThen (setupLighting t) setupControls)
                         (\<lambda>s1. Returned (subscribe (setupTouchHandlers s1))))) = fview s"
        by (intro andThen_state[where P="\<lambda>t. fview t = fview s"])
           (simp_all add: fview_setupLighting fview_setupControls fview_subscribe fview_setupTouchHandlers)
      with False Some w show ?thesis
        by (simp add: init_def Let_def emit_def fview_def)
    qed
  qed
qed

lemma frames_ok_fview: "fview s' = fview s \<Longrightarrow> frames_ok s' = frames_ok s"
  by (simp add: frames_ok_def fview_def)

lemma pending_fview: "fview s' = fview s \<Longrightarrow> pending_frames s' = pending_frames s"
  by (simp add: pending_frames_def fview_def)

lemma pending_empty_iff:
  "pending_frames s = [] \<longleftrightarrow> (\<forall>f \<in> set (frames (snd s)). snd f \<noteq> canvasId (fst s))"
  by (auto simp: pending_frames_def filter_empty_conv)

lemma frames_ok_no_handle:
  "frames_ok s \<Longrightarrow> \<not> has_handle (fst s) \<Longrightarrow> pending_frames s = []"
  by (auto simp: pending_empty_iff frames_ok_def has_handle_def split: option.splits)

lemma pending_imp_frames_ok: "pending_frames s = [] \<Longrightarrow> frames_ok s"
  by (auto simp: pending_empty_iff frames_ok_def)

lemma canvasId_animate [simp]: "canvasId (fst (animate s)) = canvasId (fst s)"
  by (simp add: animate_def Let_def emit_def)

lemma frames_ok_animate: "pending_frames s = [] \<Longrightarrow> frames_ok (animate s)"
  by (auto simp: pending_empty_iff frames_ok_def animate_def Let_def emit_def)

lemma pending_after_cancel:
  "frames_ok (v, b) \<Longrightarrow> animationId v = Some h \<Longrightarrow>
   pending_frames (v', cancelAnimationFrame cid h b) = [] "
  if "canvasId v' = canvasId v"
  using that by (auto simp: pending_empty_iff frames_ok_def cancelAnimationFrame_def emit_def)

lemma frames_ok_run_frame: "frames_ok s \<Longrightarrow> frames_ok (run_frame h s)"
proof (cases "(h, canvasId (fst s)) \<in> set (frames (snd s))")
  case False then show "frames_ok s \<Longrightarrow> ?thesis" by (simp add: run_frame_def)
next
  case True
  assume ok: "frames_ok s"
  have h: "animationId (fst s) = Some h"
    using ok True unfolding frames_ok_def by (metis fst_conv snd_conv)
  have "\<And>f. f \<in> set (frames (snd s)) \<Longrightarrow> snd f = canvasId (fst s) \<Longrightarrow> fst f = h"
    using ok h unfolding frames_ok_def by (metis option.inject)
  then have "pending_frames (fst s, (snd s)\<lparr>frames := filter (\<lambda>f. fst f \<noteq> h) (frames (snd s))\<rparr>) = []"
    unfolding pending_empty_iff by auto
  then show ?thesis using True by (simp add: run_frame_def frames_ok_animate)
qed

lemma frames_ok_handleVisibilityChange:
  assumes "frames_ok s" shows "frames_ok (handleVisibilityChange s)"
proof -
  obtain v b where s: "s = (v, b)" by (cases s)
  show ?thesis
  proof (cases "hidden b \<and> has_handle v")
    case True
    then obtain h where h: "animationId v = Some h" by (auto simp: has_handle_def split: option.splits)
    have "pending_frames (v\<lparr>animationId := None\<rparr>, cancelAnimationFrame (canvasId v) h b) = []"
      using assms h by (intro pending_after_cancel[where v=v]) (simp_all add: s)
    then show ?thesis using True h
      by (simp add: handleVisibilityChange_def s pending_imp_frames_ok)
  next
    case False
    then show ?thesis using assms frames_ok_no_handle[of s]
      by (auto simp: handleVisibilityChange_def s Let_def frames_ok_animate)
  qed
qed

lemma canvasId_dispose [simp]: "canvasId (fst (dispose s)) = canvasId (fst s)"
  by (simp add: dispose_def Let_def)

lemma frames_dispose:
  "frames (snd (dispose s)) =
     (case animationId (fst s) of
        None \<Rightarrow> frames (snd s)
      | Some h \<Rightarrow> if 0 < h then filter (\<lambda>f. fst f \<noteq> h) (frames (snd s)) else frames (snd s))"
  by (simp add: dispose_def Let_def emit_def removeEventListener_def cancelAnimationFrame_def
      split: option.splits)

lemma pending_dispose: "frames_ok s \<Longrightarrow> pending_frames (dispose s) = []"
  unfolding pending_empty_iff
  by (auto simp: frames_dispose frames_ok_def split: option.splits)

lemma animationId_dispose [simp]: "animationId (fst (dispose s)) = animationId (fst s)"
  by (simp add: dispose_def Let_def)

lemma frames_ok_dispose: "frames_ok s \<Longrightarrow> frames_ok (dispose s)"
  by (simp add: pending_dispose pending_imp_frames_ok)

lemma fview_emit_snd: "fview (fst s, emit c es (snd s)) = fview s"
  by (simp add: fview_def emit_def)

lemma fview_loadModel: "fview (state_of (loadModel p s)) = fview s"
  unfolding loadModel_def
  by (intro andThen_state[where P="\<lambda>t. fview t = fview s"])
     (simp_all add: fview_showLoading fview_emit_snd)

lemma fview_removeOldModel: "fview (state_of (removeOldModel s)) = fview s"
proof (cases "model (fst s)")
  case None then show ?thesis by (simp add: removeOldModel_def)
next
  case (Some old)
  have "fview (state_of (andThen (scene_remove (ModelRoot (object_id old)) s)
          (\<lambda>s1. Returned (fst s1, emit (canvasId (fst s1)) (disposeModel old) (snd s1))))) = fview s"
    by (intro andThen_state[where P="\<lambda>t. fview t = fview s"])
       (simp_all add: fview_scene_remove fview_emit_snd)
  then show ?thesis using Some by (simp add: removeOldModel_def)
qed

lemma fview_startAutoRotate: "fview (state_of (startAutoRotate s)) = fview s"
  by (simp add: startAutoRotate_def fview_def emit_def split: option.splits)

lemma fview_stopAutoRotate: "fview (state_of (stopAutoRotate s)) = fview s"
  by (simp add: stopAutoRotate_def fview_def split: option.splits)

lemma fview_onProgress: "fview (state_of (loadModel_onProgress p s)) = fview s"
  by (simp add: loadModel_onProgress_def fview_updateLoadingProgress)

lemma fview_onError: "fview (state_of (loadModel_onError s)) = fview s"
  unfolding loadModel_onError_def
  by (intro andThen_state[where P="\<lambda>t. fview t = fview s"])
     (simp_all add: fview_showError fview_showLoading)

lemma fview_setViewMode: "fview (state_of (setViewMode m (fst s)), snd s) = fview s"
  by (simp add: setViewMode_def fview_def split: option.splits outcome.splits)

lemma fview_handleResize: "fview (handleResize s) = fview s"
  by (simp add: handleResize_def fview_def Let_def split: option.splits)

lemma fview_touchstart: "fview (touchstart ts (fst s), snd s) = fview s"
  by (simp add: touchstart_def fview_def split: list.splits)

lemma fview_touchmove: "fview (state_of (touchmove ts (fst s)), snd s) = fview s"
  by (simp add: touchmove_def pinch_def fview_def Let_def split: list.splits option.splits)

lemma fview_touchend: "fview (touchend (fst s), snd s) = fview s"
  by (simp add: touchend_def fview_def)

lemma frames_ok_onLoad:
  assumes "frames_ok s" shows "frames_ok (state_of (loadModel_onLoad g s))"
  unfolding loadModel_onLoad_def
proof (intro andThen_state[where P=frames_ok])
  show "frames_ok (state_of (removeOldModel s))"
    using assms by (simp add: frames_ok_fview[OF fview_removeOldModel])
next
  fix s1 assume "frames_ok s1"
  then show "frames_ok (state_of (scene_add (ModelRoot (object_id g))
         ((fst s1)\<lparr>model := Some (prepare (isMobile (fst s1)) (normalize g))\<rparr>, snd s1)))"
    by (simp add: frames_ok_fview[OF fview_scene_add]) (simp add: frames_ok_def)
next
  fix s2 assume "frames_ok s2"
  then show "frames_ok (state_of (showLoading False s2))"
    by (simp add: frames_ok_fview[OF fview_showLoading])
next
  fix s3 assume ok: "frames_ok s3"
  show "frames_ok (state_of (startAutoRotate (if \<not> has_handle (fst s3) then animate s3 else s3)))"
    using ok frames_ok_no_handle[of s3]
    by (simp add: frames_ok_fview[OF fview_startAutoRotate] frames_ok_animate)
qed

lemma frames_ok_step: "frames_ok s \<Longrightarrow> frames_ok (step a s)"
proof (cases a)
  case (VisibilityChange h)
  assume "frames_ok s"
  then have "frames_ok (fst s, (snd s)\<lparr>hidden := h\<rparr>)" by (simp add: frames_ok_def)
  then show ?thesis using VisibilityChange
    by (simp add: frames_ok_handleVisibilityChange)
qed (simp_all add: frames_ok_fview[OF fview_init] frames_ok_fview[OF fview_loadModel]
      frames_ok_onLoad frames_ok_fview[OF fview_onProgress] frames_ok_fview[OF fview_onError]
      frames_ok_fview[OF fview_setViewMode] frames_ok_fview[OF fview_handleResize]
      frames_ok_run_frame frames_ok_fview[OF fview_touchstart] frames_ok_fview[OF fview_touchmove]
      frames_ok_fview[OF fview_touchend] frames_ok_fview[OF fview_stopAutoRotate] frames_ok_dispose)

lemma frames_ok_run: "frames_ok s \<Longrightarrow> frames_ok (run as s)"
  by (induction as arbitrary: s) (simp_all add: frames_ok_step)

lemma dispose_viewer:
  "fst (dispose s) = (fst s)\<lparr>scene := None, camera := None, renderer := None, controls := None, model := None\<rparr>"
  by (simp add: dispose_def Let_def)

text \<open>
  Claim C4. \<open>dispose\<close> on a viewer that was never initialised, and \<open>dispose\<close> called
  twice in a row on a viewer in any state a run can reach, leave no animation frame
  of the viewer pending; the second call changes no field of the viewer. \<open>dispose\<close>
  reads nothing outside a guard, so it has no throwing branch. The hypothesis says that
  no frame is queued for the viewer before it exists.
\<close>

theorem dispose_leaves_no_frame:
  assumes "pending_frames (ModelViewer cid b, b) = []"
  shows "pending_frames (dispose (ModelViewer cid b, b)) = [] \<and>
         pending_frames (dispose (run as (ModelViewer cid b, b))) = [] \<and>
         pending_frames (dispose (dispose (run as (ModelViewer cid b, b)))) = [] \<and>
         fst (dispose (dispose (run as (ModelViewer cid b, b)))) =
           fst (dispose (run as (ModelViewer cid b, b)))"
proof -
  have ok0: "frames_ok (ModelViewer cid b, b)" using assms by (rule pending_imp_frames_ok)
  then have ok: "frames_ok (run as (ModelViewer cid b, b))" by (rule frames_ok_run)
  show ?thesis
    using ok0 ok by (simp add: pending_dispose frames_ok_dispose dispose_viewer)
qed

theorem dispose_leaves_no_frame_witness:
  "pending_frames (ModelViewer ''viewer'' (page_with laid_out), page_with laid_out) = [] \<and>
   pending_frames (run [Init, LoadModel ''house.glb'', LoadCompleted (house 1)]
          (ModelViewer ''viewer'' (page_with laid_out), page_with laid_out)) = [1] \<and>
   pending_frames (dispose (dispose (run [Init, LoadModel ''house.glb'', LoadCompleted (house 1)]
          (ModelViewer ''viewer'' (page_with laid_out), page_with laid_out)))) = []"
proof -
  have h: "pending_frames (ModelViewer ''viewer'' (page_with laid_out), page_with laid_out) = []"
    by (simp add: pending_frames_def page_with_def)
  have r: "pending_frames (run [Init, LoadModel ''house.glb'', LoadCompleted (house 1)]
          (ModelViewer ''viewer'' (page_with laid_out), page_with laid_out)) = [1]"
    by (simp add: eval_defs)
  show ?thesis
    using h r
      dispose_leaves_no_frame[OF h, of "[Init, LoadModel ''house.glb'', LoadCompleted (house 1)]"]
    by simp
qed

text \<open>The field \<open>animationId\<close> itself keeps the cancelled handle.\<close>

lemma dispose_keeps_animationId: "animationId (fst (dispose s)) = animationId (fst s)"
  by (simp add: dispose_def Let_def)

section \<open>Visibility\<close>



section \<open>Completed loads, progress and the size of the surface\<close>

lemma andThen_Returned:
  "andThen r f = Returned s' \<longleftrightarrow> (\<exists>s1. r = Returned s1 \<and> f s1 = Returned s')"
  by (cases r) simp_all

lemma mview_scene_add: "mview (state_of (scene_add x s)) = mview s"
  by (simp add: scene_add_def mview_def split: option.splits)

lemma mview_scene_remove: "mview (state_of (scene_remove x s)) = mview s"
  by (simp add: scene_remove_def mview_def split: option.splits)

lemma mview_showLoading: "mview (state_of (showLoading x s)) = mview s"
  by (simp add: showLoading_def mview_def split: option.splits)

lemma mview_animate: "mview (animate s) = mview s"
  by (simp add: animate_def mview_def Let_def)

lemma mview_startAutoRotate: "mview (state_of (startAutoRotate s)) = mview s"
  by (simp add: startAutoRotate_def mview_def split: option.splits)

lemma mview_removeOldModel: "mview (state_of (removeOldModel s)) = mview s"
proof (cases "model (fst s)")
  case None then show ?thesis by (simp add: removeOldModel_def)
next
  case (Some old)
  have "mview (state_of (andThen (scene_remove (ModelRoot (object_id old)) s)
          (\<lambda>s1. Returned (fst s1, emit (canvasId (fst s1)) (disposeModel old) (snd s1))))) = mview s"
    by (intro andThen_state[where P="\<lambda>t. mview t = mview s"])
       (simp_all add: mview_scene_remove, simp add: mview_def)
  then show ?thesis using Some by (simp add: removeOldModel_def)
qed

lemma onLoad_model:
  assumes "loadModel_onLoad gltf s = Returned s'"
  shows "model (fst s') = Some (prepare (isMobile (fst s)) (normalize gltf))"
proof -
  from assms obtain s1 s2 s3 where
    1: "removeOldModel s = Returned s1" and
    2: "scene_add (ModelRoot (object_id gltf))
          ((fst s1)\<lparr>model := Some (prepare (isMobile (fst s1)) (normalize gltf))\<rparr>, snd s1) = Returned s2" and
    3: "showLoading False s2 = Returned s3" and
    4: "startAutoRotate (if \<not> has_handle (fst s3) then animate s3 else s3) = Returned s'"
    unfolding loadModel_onLoad_def andThen_Returned by blast
  have m1: "mview s1 = mview s" using mview_removeOldModel[of s] 1 by simp
  have m2: "mview s2 = mview ((fst s1)\<lparr>model := Some (prepare (isMobile (fst s1)) (normalize gltf))\<rparr>, snd s1)"
    using mview_scene_add[of "ModelRoot (object_id gltf)"
        "((fst s1)\<lparr>model := Some (prepare (isMobile (fst s1)) (normalize gltf))\<rparr>, snd s1)"] 2 by simp
  have m3: "mview s3 = mview s2" using mview_showLoading[of False s2] 3 by simp
  have m4: "mview s' = mview s3"
    using mview_startAutoRotate[of "if \<not> has_handle (fst s3) then animate s3 else s3"] 4
    by (simp add: mview_animate split: if_splits)
  show ?thesis using m1 m2 m3 m4 by (simp add: mview_def)
qed

lemma scale_prepare [simp]: "scale (prepare mobile m) = scale m"
  by (simp add: prepare_def)

text \<open>
  Claim C3, on js/model-viewer.js. When the largest dimension of the bounding box is
  zero, a completed load multiplies the scale of the model by \<open>2 / 0 = Infinity\<close>: the
  scale is not left at \<open>1\<close>. The later revision tests the divisor
  (\<open>normalize_guarded_degenerate\<close>).
\<close>

theorem onLoad_degenerate_scale:
  "maxDim gltf = Num 0 \<Longrightarrow> loadModel_onLoad gltf s = Returned s' \<Longrightarrow>
   map_option scale (model (fst s')) = Some (multiplyScalar (scale gltf) Infinity)"
  by (simp add: onLoad_model normalize_def)

lemma ready_returns: "returned (loadModel_onLoad empty_asset ready)"
  by (simp add: ready_def empty_asset_def eval_defs)

theorem onLoad_degenerate_scale_witness:
  "maxDim empty_asset = Num 0 \<and> returned (loadModel_onLoad empty_asset ready) \<and>
   map_option scale (model (fst (state_of (loadModel_onLoad empty_asset ready)))) =
     Some \<lparr>vx = Infinity, vy = Infinity, vz = Infinity\<rparr>"
proof -
  have m: "maxDim empty_asset = Num 0"
    by (simp add: maxDim_def empty_asset_def vec_def js_max_def)
  obtain s' where r: "loadModel_onLoad empty_asset ready = Returned s'"
    using ready_returns by (cases "loadModel_onLoad empty_asset ready") simp_all
  show ?thesis
    using m r onLoad_degenerate_scale[OF m r]
    by (simp add: empty_asset_def vec_def multiplyScalar_def)
qed

lemma normalize_guarded_degenerate:
  "maxDim m = Num 0 \<Longrightarrow> scale (normalize_guarded m) = multiplyScalar (scale m) (Num 1)"
  by (simp add: normalize_guarded_def js_gt_def Let_def)

lemma multiplyScalar_one: "multiplyScalar (vec a b c) (Num 1) = vec a b c"
  by (simp add: multiplyScalar_def vec_def)

text \<open>
  Claim C7, on js/model-viewer.js. For a progress event whose total is zero, the
  percentage handed to the loading overlay is \<open>NaN\<close> when nothing is loaded yet and
  \<open>Infinity\<close> otherwise: it is not \<open>0\<close>. The later revision tests the divisor
  (\<open>percent_guarded_total_zero\<close>).
\<close>

theorem onProgress_total_zero:
  "canvas_el v b = Some e \<Longrightarrow> loadingProgress e \<noteq> None \<Longrightarrow> total p = 0 \<Longrightarrow>
   loadModel_onProgress p (v, b) =
     Returned (v, set_canvas_el v
       (e\<lparr>loadingProgress := Some (if loaded p = 0 then NaN else Infinity)\<rparr>) b)"
  by (simp add: loadModel_onProgress_def updateLoadingProgress_def percent_def)

theorem onProgress_total_zero_witness:
  "canvas_el (fst ready) (snd ready) = Some (laid_out\<lparr>loadingProgress := Some (Num 0)\<rparr>) \<and>
   total \<lparr>loaded = 0, total = 0\<rparr> = 0 \<and>
   map_option loadingProgress
     (elements (snd (state_of (loadModel_onProgress \<lparr>loaded = 0, total = 0\<rparr> ready))) ''viewer'')
     = Some (Some NaN)"
proof -
  have c: "canvas_el (fst ready) (snd ready) = Some (laid_out\<lparr>loadingProgress := Some (Num 0)\<rparr>)"
    by (simp add: ready_def eval_defs)
  have cv: "canvas (fst ready) = Some ''viewer''"
    by (simp add: ready_def eval_defs)
  show ?thesis
    using c onProgress_total_zero[of "fst ready" "snd ready"
        "laid_out\<lparr>loadingProgress := Some (Num 0)\<rparr>" "\<lparr>loaded = 0, total = 0\<rparr>"]
    by (simp add: set_canvas_el_def cv)
qed

lemma percent_guarded_total_zero: "total p = 0 \<Longrightarrow> percent_guarded p = Num 0"
  by (simp add: percent_guarded_def)

text \<open>
  Claim C9, on js/model-viewer.js. \<open>init\<close> sizes the render surface from the measures
  of the canvas itself, whatever the parent container reports, and has no fallback: a
  canvas that measures nothing gives a surface of \<open>0\<close> by \<open>0\<close>. The later revision
  measures the parent container and falls back to 400 (\<open>init_guarded_fallback\<close>).
\<close>

theorem init_measures_canvas:
  "\<not> isInitialized v \<Longrightarrow> canvas_el v b = Some e \<Longrightarrow> webgl b \<Longrightarrow>
   renderer (fst (state_of (init (v, b)))) =
     Some \<lparr>surfaceWidth = Num (real (clientWidth e)), surfaceHeight = Num (real (clientHeight e)),
           rendererPixelRatio = pixelRatio v, shadowMapEnabled = \<not> isMobile v\<rparr>"
  by (simp add: init_def Let_def setupLighting_def scene_add_def setupControls_def emit_def
        subscribe_def setupTouchHandlers_def)

theorem init_measures_canvas_witness:
  "\<not> isInitialized (ModelViewer ''viewer'' (page_with collapsed)) \<and>
   canvas_el (ModelViewer ''viewer'' (page_with collapsed)) (page_with collapsed) = Some collapsed \<and>
   parentClientWidth collapsed = 0 \<and> parentClientHeight collapsed = 0 \<and>
   webgl (page_with collapsed) \<and>
   map_option surfaceWidth (renderer (fst (state_of (init
      (ModelViewer ''viewer'' (page_with collapsed), page_with collapsed))))) = Some (Num 0) \<and>
   map_option surfaceHeight (renderer (fst (state_of (init
      (ModelViewer ''viewer'' (page_with collapsed), page_with collapsed))))) = Some (Num 0)"
  using init_measures_canvas[of "ModelViewer ''viewer'' (page_with collapsed)" "page_with collapsed" collapsed]
  by (simp add: ModelViewer_def page_with_def canvas_el_def collapsed_def)

lemma init_guarded_fallback:
  assumes "\<not> isInitialized v" "canvas_el v b = Some e" "webgl b"
    "parentClientWidth e = 0" "parentOffsetWidth e = 0"
    "parentClientHeight e = 0" "parentOffsetHeight e = 0"
  shows "map_option surfaceWidth (renderer (fst (state_of (init_guarded (v, b))))) = Some (Num 400) \<and>
         map_option surfaceHeight (renderer (fst (state_of (init_guarded (v, b))))) = Some (Num 400)"
  using assms
  by (simp add: init_guarded_def Let_def setupLighting_def scene_add_def setupControls_guarded_def
        setupControls_def emit_def subscribe_def setupTouchHandlers_def container_width_def
        container_height_def js_or_def)

section \<open>Rounding\<close>

lemma round_half_even_int: "round_half_even (of_int n) = n"
  by (simp add: round_half_even_def)

lemma round_half_even_minus: "round_half_even (- q) = - round_half_even q"
proof (cases "q = of_int \<lfloor>q\<rfloor>")
  case True
  then obtain n where "q = of_int n" by metis
  then show ?thesis using round_half_even_int[of n] round_half_even_int[of "- n"] by simp
next
  case False
  have l: "of_int \<lfloor>q\<rfloor> < q" using False by linarith
  have f: "\<lfloor>- q\<rfloor> = - \<lfloor>q\<rfloor> - 1"
  proof (rule floor_unique)
    show "of_int (- \<lfloor>q\<rfloor> - 1) \<le> - q" by simp linarith
    show "- q < of_int (- \<lfloor>q\<rfloor> - 1) + 1" using l by simp
  qed
  show ?thesis
  proof (cases "q - of_int \<lfloor>q\<rfloor> < 1 / 2")
    case True
    then show ?thesis unfolding round_half_even_def Let_def f by simp
  next
    case nl: False
    show ?thesis
    proof (cases "1 / 2 < q - of_int \<lfloor>q\<rfloor>")
      case True
      then show ?thesis unfolding round_half_even_def Let_def f by simp
    next
      case False
      then have "q - of_int \<lfloor>q\<rfloor> = 1 / 2" using nl by simp
      then show ?thesis unfolding round_half_even_def Let_def f by simp
    qed
  qed
qed

lemma round_half_even_bounds:
  "of_int \<lfloor>q\<rfloor> \<le> (of_int (round_half_even q) :: real) \<and> round_half_even q \<le> \<lfloor>q\<rfloor> + 1"
  by (simp add: round_half_even_def Let_def)

text \<open>
  The unit of rounding of a positive \<open>x\<close>: when \<open>x * 2^k\<close> lies between \<open>2^52\<close> and
  \<open>2^53\<close>, the binary64 values around \<open>x\<close> are the multiples of \<open>2^(- k)\<close>.
\<close>

lemma ulp_exponent_scale:
  assumes "0 < x" "2 ^ 52 \<le> x * 2 powr of_int k" "x * 2 powr of_int k < 2 ^ 53" "k \<le> 1074"
  shows "ulp_exponent x = - k"
proof -
  have p: "(2::real) powr of_int k > 0" by simp
  have a: "2 powr (52 - of_int k) \<le> x"
  proof -
    have "(2::real) powr (52 - of_int k) = 2 powr 52 / 2 powr of_int k"
      by (rule powr_diff)
    also have "\<dots> = 2 ^ 52 / 2 powr of_int k" by simp
    also have "\<dots> \<le> x" using assms(2) p by (simp add: field_simps)
    finally show ?thesis .
  qed
  have b: "x < 2 powr (53 - of_int k)"
  proof -
    have "x < 2 ^ 53 / 2 powr of_int k" using assms(3) p by (simp add: field_simps)
    also have "\<dots> = 2 powr 53 / 2 powr of_int k" by simp
    also have "\<dots> = 2 powr (53 - of_int k)" by (rule powr_diff[symmetric])
    finally show ?thesis .
  qed
  have "\<lfloor>log 2 x\<rfloor> = 52 - k"
  proof (rule floor_unique)
    have "log 2 (2 powr (52 - of_int k)) \<le> log 2 x"
      using a assms(1) by (simp del: log_powr_cancel)
    then show "of_int (52 - k) \<le> log 2 x" by simp
    have "log 2 x < log 2 (2 powr (53 - of_int k))"
      using b assms(1) by (simp del: log_powr_cancel)
    then show "log 2 x < of_int (52 - k) + 1" by simp
  qed
  then show ?thesis using assms(1,4) by (simp add: ulp_exponent_def)
qed

lemma round64_scale:
  assumes "0 < x" "2 ^ 52 \<le> x * 2 powr of_int k" "x * 2 powr of_int k < 2 ^ 53"
    and "- 970 \<le> k" "k \<le> 1074"
  shows "round64 x = Num (of_int (round_half_even (x * 2 powr of_int k)) / 2 powr of_int k)"
proof -
  let ?q = "x * 2 powr of_int k"
  let ?n = "round_half_even ?q"
  have u: "ulp_exponent x = - k" using assms(1,2,3,5) by (rule ulp_exponent_scale)
  have q: "x / 2 powr of_int (- k) = ?q" by (simp add: powr_minus field_simps)
  have y: "(of_int ?n :: real) * 2 powr of_int (- k) = of_int ?n / 2 powr of_int k"
    by (simp add: powr_minus field_simps)
  have "\<lfloor>?q\<rfloor> < 2 ^ 53" using assms(3) by (simp add: floor_less_iff)
  then have n1: "?n \<le> 2 ^ 53" using round_half_even_bounds[of ?q] by linarith
  have "(0::int) \<le> \<lfloor>?q\<rfloor>" using assms(2) by (simp add: le_floor_iff order_trans[of 0 "2 ^ 52"])
  then have "(0::real) \<le> of_int \<lfloor>?q\<rfloor>" by simp
  then have n0: "(0::real) \<le> of_int ?n" using round_half_even_bounds[of ?q] by linarith
  have n1r: "(of_int ?n :: real) \<le> 2 ^ 53"
    using n1 by (metis of_int_le_iff of_int_numeral of_int_power)
  have "(2::real) powr of_int (- k) \<le> 2 powr 970"
    using assms(4) by (intro powr_mono) simp_all
  then have p: "(2::real) powr of_int (- k) \<le> 2 ^ 970" by simp
  have "of_int ?n * 2 powr of_int (- k) \<le> (2::real) ^ 53 * 2 ^ 970"
    by (rule mult_mono[OF n1r p]) simp_all
  also have "\<dots> < 2 ^ 1024" by simp
  finally have lt: "\<bar>of_int ?n * 2 powr of_int (- k)\<bar> < (2::real) ^ 1024"
    using n0 by (simp add: abs_mult)
  show ?thesis
    using assms(1) lt unfolding round64_def Let_def u q y[symmetric] by simp
qed

lemma round64_scale_nat:
  assumes "0 < x" "2 ^ 52 \<le> x * 2 ^ n" "x * 2 ^ n < 2 ^ 53" "n \<le> 1074"
  shows "round64 x = Num (of_int (round_half_even (x * 2 ^ n)) / 2 ^ n)"
proof -
  have p: "(2::real) powr of_int (int n) = 2 ^ n" by (simp add: powr_realpow)
  show ?thesis using round64_scale[of x "int n"] assms unfolding p by simp
qed

lemma ulp_exponent_minus: "ulp_exponent (- x) = ulp_exponent x"
  by (simp add: ulp_exponent_def)

lemma round64_minus: "round64 (- x) = js_neg (round64 x)"
  by (simp add: round64_def Let_def ulp_exponent_minus round_half_even_minus)

lemma ulp_exponent_le:
  assumes "x = of_int m * 2 powr of_int j" "\<bar>m\<bar> < 2 ^ 53" "- 1074 \<le> j" "x \<noteq> 0"
  shows "ulp_exponent x \<le> j"
proof -
  have m0: "m \<noteq> 0" using assms(1,4) by auto
  then have am: "0 < \<bar>real_of_int m\<bar>" by simp
  have "\<bar>real_of_int m\<bar> < 2 ^ 53"
    using assms(2) by (metis of_int_abs of_int_less_iff of_int_numeral of_int_power)
  then have "\<bar>real_of_int m\<bar> < 2 powr 53" by simp
  then have lm: "log 2 \<bar>real_of_int m\<bar> < 53"
    using am by (simp add: log_less_iff)
  have "\<bar>x\<bar> = \<bar>real_of_int m\<bar> * 2 powr of_int j"
    unfolding assms(1) by (simp add: abs_mult)
  then have "log 2 \<bar>x\<bar> = log 2 \<bar>real_of_int m\<bar> + of_int j"
    using am by (simp add: log_mult)
  then have "log 2 \<bar>x\<bar> < of_int (j + 53)" using lm by simp
  then have "\<lfloor>log 2 \<bar>x\<bar>\<rfloor> < j + 53" by (simp only: floor_less_iff)
  then show ?thesis using assms(3) by (simp add: ulp_exponent_def)
qed

text \<open>A binary64 value is rounded to itself.\<close>

lemma round64_exact:
  assumes "x = of_int m * 2 powr of_int j" "\<bar>m\<bar> < 2 ^ 53" "- 1074 \<le> j" "\<bar>x\<bar> < 2 ^ 1024"
  shows "round64 x = Num x"
proof (cases "x = 0")
  case True then show ?thesis by (simp add: round64_def)
next
  case False
  define e where "e = ulp_exponent x"
  have le: "e \<le> j" unfolding e_def using assms(1,2,3) False by (rule ulp_exponent_le)
  have "(2::real) powr of_int j = 2 powr (of_int e + of_int (j - e))" by simp
  also have "\<dots> = 2 powr of_int e * 2 powr of_int (j - e)" by (rule powr_add)
  also have "2 powr real_of_int (j - e) = 2 ^ nat (j - e)"
    using le powr_real_of_int[of 2 "j - e"] by simp
  finally have p: "(2::real) powr of_int j = 2 powr of_int e * 2 ^ nat (j - e)" .
  have "x / 2 powr of_int e = of_int m * (2 powr of_int e * 2 ^ nat (j - e)) / 2 powr of_int e"
    using assms(1) p by simp
  then have q: "x / 2 powr of_int e = of_int (m * 2 ^ nat (j - e))" by simp
  have y: "of_int (m * 2 ^ nat (j - e)) * 2 powr of_int e = x"
    using q by (simp add: field_simps)
  have "round64 x =
     (let u = 2 powr of_int e; y = of_int (round_half_even (x / u)) * u
      in if 2 ^ 1024 \<le> \<bar>y\<bar> then (if 0 < x then Infinity else NegInfinity) else Num y)"
    using False by (simp add: round64_def e_def)
  also have "\<dots> = Num x"
    using assms(4) unfolding Let_def q round_half_even_int y by simp
  finally show ?thesis .
qed

lemma round64_numeral:
  assumes "(numeral w :: real) < 2 ^ 53"
  shows "round64 (numeral w) = Num (numeral w)"
proof (rule round64_exact[where m = "numeral w" and j = 0])
  show "(numeral w :: real) = of_int (numeral w) * 2 powr of_int 0" by simp
  have "real_of_int (numeral w) < real_of_int (2 ^ 53)" using assms by simp
  then have "(numeral w :: int) < 2 ^ 53" by (simp only: of_int_less_iff)
  then show "\<bar>numeral w :: int\<bar> < 2 ^ 53" by simp
  show "- 1074 \<le> (0::int)" by simp
  have "(numeral w :: real) < 2 ^ 1024"
    using assms by (rule order_less_trans) simp
  then show "\<bar>numeral w :: real\<bar> < 2 ^ 1024" by simp
qed

lemma round64_zero: "round64 0 = Num 0"
  by (simp add: round64_def)

lemma round64_one: "round64 1 = Num 1"
  using round64_exact[of 1 1 0] by simp

lemma round64_half: "round64 (1 / 2) = Num (1 / 2)"
  using round64_exact[of "1 / 2" 1 "- 1"] by (simp add: powr_minus)

lemmas round64_simps =
  round64_zero round64_one round64_numeral round64_minus round64_half
  add64_def sub64_def mul64_def div64_def sqrt64_def js_sub_def

section \<open>Pinch zoom\<close>

text \<open>
  Two fingers 2 apart, and a camera at distance 2. One tenth is no binary64 value:
  \<open>2 / 20\<close> is rounded to \<open>3602879701896397 / 2^55\<close>, and 2 divided by that is rounded to
  20.
\<close>

lemma touch_distance_ex: "touch_distance (finger 0 0) (finger 0 2) = Num 2"
  by (simp add: touch_distance_def finger_def Let_def round64_simps)

lemma vlength_ex: "vlength (vec 0 0 2) = Num 2"
  by (simp add: vlength_def vec_def round64_simps)

lemma scale_ex: "div64 (Num 2) (Num 20) = Num (3602879701896397 / 36028797018963968)"
  using round64_scale_nat[of "1 / 10" 56] by (simp add: div64_def round_half_even_def)

lemma newDistance_ex: "div64 (Num 2) (Num (3602879701896397 / 36028797018963968)) = Num 20"
  using round64_scale_nat[of "2 / (3602879701896397 / 36028797018963968)" 48]
  by (simp add: div64_def round_half_even_def)

text \<open>
  Claim C5 fails as stated: when the resulting distance is outside the zoom bounds,
  the handler leaves the reference distance as it was. Here the reference is 20, the
  fingers are 2 apart, and the camera at distance 2 would move to distance 20.
\<close>

theorem pinch_outside_counterexample:
  "touchStartDistance pinching = Num 20 \<and>
   touch_distance (finger 0 0) (finger 0 2) = Num 2 \<and>
   div64 (vlength (vec 0 0 2)) (div64 (Num 2) (Num 20)) = Num 20 \<and>
   touchmove [finger 0 0, finger 0 2] pinching = Returned pinching \<and>
   touchStartDistance (state_of (touchmove [finger 0 0, finger 0 2] pinching)) \<noteq>
     touch_distance (finger 0 0) (finger 0 2)"
  by (simp add: touch_distance_ex vlength_ex scale_ex newDistance_ex touchmove_def pinch_def
        pinching_def js_gt_def)

text \<open>
  Claim C5, amended. With reference distance \<open>d0 > 0\<close> and new distance \<open>d1\<close> between the
  fingers, the handler computes \<open>scale = d1 / d0\<close> and the resulting camera distance, the
  length of the camera position divided by \<open>scale\<close>, every operation rounded. It
  multiplies the camera position by \<open>1 / scale\<close> only when that computed distance lies
  strictly between \<open>minDistance\<close> and \<open>maxDistance\<close>, and then it sets the reference
  distance to \<open>d1\<close>; when the computed distance is not strictly between the bounds, the
  viewer is unchanged: the camera position and the reference distance.
\<close>

theorem pinch_commits_inside_bounds:
  assumes "isTouch v" and "js_gt (touchStartDistance v) (Num 0)"
    and "camera v = Some cam" and "controls v = Some c"
  shows "touchmove [t0, t1] v =
     Returned
       (if js_gt (div64 (vlength (cam_position cam))
                    (div64 (touch_distance t0 t1) (touchStartDistance v))) (Num (minDistance c)) \<and>
           js_lt (div64 (vlength (cam_position cam))
                    (div64 (touch_distance t0 t1) (touchStartDistance v))) (Num (maxDistance c))
        then v\<lparr>camera := Some (cam\<lparr>cam_position :=
                 multiplyScalar64 (cam_position cam)
                   (div64 (Num 1) (div64 (touch_distance t0 t1) (touchStartDistance v)))\<rparr>),
               touchStartDistance := touch_distance t0 t1\<rparr>
        else v)"
  using assms by (simp add: touchmove_def pinch_def Let_def)

theorem pinch_commits_inside_bounds_witness:
  "isTouch (pinching\<lparr>touchStartDistance := Num 4\<rparr>) \<and>
   js_gt (touchStartDistance (pinching\<lparr>touchStartDistance := Num 4\<rparr>)) (Num 0) \<and>
   touch_distance (finger 0 0) (finger 0 2) = Num 2 \<and>
   div64 (vlength (vec 0 0 2)) (div64 (Num 2) (Num 4)) = Num 4 \<and>
   touchmove [finger 0 0, finger 0 2] (pinching\<lparr>touchStartDistance := Num 4\<rparr>) =
     Returned (pinching\<lparr>camera := Some \<lparr>aspect = Num (4 / 3), cam_position = vec 0 0 4\<rparr>,
                 touchStartDistance := Num 2\<rparr>)"
  using pinch_commits_inside_bounds[of "pinching\<lparr>touchStartDistance := Num 4\<rparr>"
          "\<lparr>aspect = Num (4 / 3), cam_position = vec 0 0 2\<rparr>"
          "\<lparr>enableDamping = True, dampingFactor = 5 / 100, minDistance = 1,
          maxDistance = 10, enablePan = False, autoRotate = False, autoRotateSpeed = 2,
          rotateSpeed = 1 / 2, zoomSpeed = 8 / 10\<rparr>" "finger 0 0" "finger 0 2"]
  by (simp add: touch_distance_ex vlength_ex[unfolded vec_def] pinching_def js_gt_def
        round64_simps multiplyScalar64_def vec_def)

text \<open>
  At the bounds rounding decides the test. The camera is at distance
  \<open>5254199565265579 / 2^51\<close>, the binary64 value next to \<open>7 / 3\<close> and above it; the
  reference is 3 and the fingers are 7 apart. The exact quotient is above the lower
  bound 1; the handler computes the distance 1 and leaves the viewer as it is.
\<close>

lemma round_half_even_near:
  assumes "of_int n - 1 / 2 < q" "q < of_int n + 1 / 2"
  shows "round_half_even q = n"
proof (cases "of_int n \<le> q")
  case True
  then have "\<lfloor>q\<rfloor> = n" using assms(2) by (intro floor_unique) simp_all
  then show ?thesis using assms(2) by (simp add: round_half_even_def)
next
  case False
  then have "\<lfloor>q\<rfloor> = n - 1" using assms(1) by (intro floor_unique) simp_all
  then show ?thesis using assms(1) False by (simp add: round_half_even_def)
qed

lemma touch_distance_seven: "touch_distance (finger 0 0) (finger 0 7) = Num 7"
proof -
  have "sqrt 49 = 7" by (rule real_sqrt_unique) simp_all
  then show ?thesis
    by (simp add: touch_distance_def finger_def Let_def round64_simps)
qed

lemma scale_seven_thirds:
  "div64 (Num 7) (Num 3) = Num (5254199565265579 / 2251799813685248)"
  using round64_scale_nat[of "7 / 3" 51] by (simp add: div64_def round_half_even_def)

lemma square_ex:
  "mul64 (Num (5254199565265579 / 2251799813685248)) (Num (5254199565265579 / 2251799813685248)) =
     Num (6129899492809843 / 1125899906842624)"
  using round64_scale_nat[of
      "(5254199565265579 / 2251799813685248) * (5254199565265579 / 2251799813685248)" 50]
  by (simp add: mul64_def round_half_even_def)

lemma root_ex:
  "sqrt64 (Num (6129899492809843 / 1125899906842624)) = Num (5254199565265579 / 2251799813685248)"
proof -
  let ?w = "6129899492809843 / 1125899906842624 :: real"
  have lo: "(5254199565265579 - 1 / 2) / 2 ^ 51 < sqrt ?w"
    by (rule real_less_rsqrt) (simp add: power2_eq_square)
  have hi: "sqrt ?w < (5254199565265579 + 1 / 2) / 2 ^ 51"
    by (rule real_less_lsqrt) (simp_all add: power2_eq_square)
  have n: "round_half_even (sqrt ?w * 2 ^ 51) = 5254199565265579"
    using lo hi by (intro round_half_even_near) (simp_all add: field_simps)
  have p: "0 < sqrt ?w" by simp
  have a: "2 ^ 52 \<le> sqrt ?w * 2 ^ 51" using lo by (simp add: field_simps)
  have b: "sqrt ?w * 2 ^ 51 < 2 ^ 53" using hi by (simp add: field_simps)
  have "round64 (sqrt ?w) = Num (of_int (round_half_even (sqrt ?w * 2 ^ 51)) / 2 ^ 51)"
    using p a b by (rule round64_scale_nat) simp
  then show ?thesis unfolding n by (simp add: sqrt64_def)
qed

lemma sum_ex:
  "round64 (6129899492809843 / 1125899906842624) = Num (6129899492809843 / 1125899906842624)"
  using round64_exact[of "6129899492809843 / 1125899906842624" 6129899492809843 "- 50"]
  by (simp add: powr_minus)

lemma vlength_seven_thirds:
  "vlength (vec 0 0 (5254199565265579 / 2251799813685248)) =
     Num (5254199565265579 / 2251799813685248)"
  by (simp add: vlength_def vec_def square_ex root_ex sum_ex add64_def round64_zero
        mul64_def[of "Num 0"])

lemma quotient_ex:
  "div64 (Num (5254199565265579 / 2251799813685248)) (Num (5254199565265579 / 2251799813685248)) =
     Num 1"
  by (simp add: div64_def round64_one)

lemma pinch_rounding_at_bound:
  "div64 (vlength (vec 0 0 (5254199565265579 / 2251799813685248)))
     (div64 (touch_distance (finger 0 0) (finger 0 7)) (Num 3)) = Num 1 \<and>
   (1::real) < 5254199565265579 / 2251799813685248 * 3 / 7 \<and>
   touchmove [finger 0 0, finger 0 7]
     (pinching\<lparr>camera := Some \<lparr>aspect = Num (4 / 3),
          cam_position = vec 0 0 (5254199565265579 / 2251799813685248)\<rparr>,
        touchStartDistance := Num 3\<rparr>) =
   Returned (pinching\<lparr>camera := Some \<lparr>aspect = Num (4 / 3),
          cam_position = vec 0 0 (5254199565265579 / 2251799813685248)\<rparr>,
        touchStartDistance := Num 3\<rparr>)"
  by (simp add: touch_distance_seven scale_seven_thirds vlength_seven_thirds quotient_ex
        touchmove_def pinch_def pinching_def js_gt_def)

section \<open>View modes\<close>

lemma setupChild_mapTex: "mapTex (snd (setupChild mobile c h) r) = mapTex (h r)"
  by (simp add: setupChild_def Let_def split: material_slot.splits)

lemma setupChild_part: "same_part c (fst (setupChild mobile c h))"
  by (simp add: setupChild_def Let_def same_part_def split: material_slot.splits option.splits)

lemma setupChild_records: "records h (fst (setupChild mobile c h))"
  by (auto simp: setupChild_def Let_def records_def split: material_slot.splits option.splits)

lemma setupMaterials_mapTex: "mapTex (snd (setupMaterials mobile ns h) r) = mapTex (h r)"
proof (induction ns arbitrary: h)
  case Nil show ?case by simp
next
  case (Cons c cs)
  show ?case
    using Cons.IH[of "snd (setupChild mobile c h)"]
    by (simp add: split_beta Let_def setupChild_mapTex)
qed

lemma records_cong: "(\<And>r. mapTex (h r) = mapTex (h0 r)) \<Longrightarrow> records h c = records h0 c"
  by (simp add: records_def)

lemma setupMaterials_nodes:
  "list_all2 (\<lambda>a b. same_part a b \<and> records h b) ns (fst (setupMaterials mobile ns h))"
proof (induction ns arbitrary: h)
  case Nil show ?case by simp
next
  case (Cons c cs)
  have tl: "list_all2 (\<lambda>a b. same_part a b \<and> records (snd (setupChild mobile c h)) b) cs
          (fst (setupMaterials mobile cs (snd (setupChild mobile c h))))"
    by (rule Cons.IH)
  have "\<And>c'. records (snd (setupChild mobile c h)) c' = records h c'"
    by (rule records_cong) (rule setupChild_mapTex)
  with tl show ?case
    by (simp add: split_beta Let_def setupChild_part setupChild_records)
qed

lemma applyViewMode_returns:
  "isMesh c \<longrightarrow> material c \<noteq> NoMaterial \<Longrightarrow> \<exists>h1. applyViewMode mode c h = Returned h1"
  by (auto simp: applyViewMode_def split: material_slot.splits)

lemma traverse_returns:
  "\<forall>c \<in> set ns. isMesh c \<longrightarrow> material c \<noteq> NoMaterial \<Longrightarrow>
   \<exists>h'. traverseViewMode mode ns h = Returned h'"
proof (induction ns arbitrary: h)
  case Nil show ?case by simp
next
  case (Cons c cs)
  then obtain h1 where "applyViewMode mode c h = Returned h1"
    using applyViewMode_returns[of c mode h] by auto
  then show ?case using Cons by simp
qed

lemma solid_keeps_none:
  "traverseViewMode ''solid'' ns h = Returned h' \<Longrightarrow> mapTex (h r) = None \<Longrightarrow> mapTex (h' r) = None"
proof (induction ns arbitrary: h)
  case Nil then show ?case by simp
next
  case (Cons c cs)
  from Cons.prems(1) obtain h1 where
    a: "applyViewMode ''solid'' c h = Returned h1" and t: "traverseViewMode ''solid'' cs h1 = Returned h'"
    by (auto split: outcome.splits)
  have "mapTex (h1 r) = None"
    using a Cons.prems(2)
    by (auto simp: applyViewMode_def split: if_splits material_slot.splits)
  then show ?case using Cons.IH[OF t] by simp
qed

lemma solid_clears:
  "traverseViewMode ''solid'' ns h = Returned h' \<Longrightarrow> c \<in> set ns \<Longrightarrow> isMesh c \<Longrightarrow>
   material c = Single r \<Longrightarrow> mapTex (h' r) = None"
proof (induction ns arbitrary: h)
  case Nil then show ?case by simp
next
  case (Cons d ds)
  from Cons.prems(1) obtain h1 where
    a: "applyViewMode ''solid'' d h = Returned h1" and t: "traverseViewMode ''solid'' ds h1 = Returned h'"
    by (auto split: outcome.splits)
  show ?case
  proof (cases "c = d")
    case True
    then have "mapTex (h1 r) = None"
      using a Cons.prems(3,4) by (auto simp: applyViewMode_def split: if_splits)
    then show ?thesis using solid_keeps_none[OF t] by simp
  next
    case False
    then have "c \<in> set ds" using Cons.prems(2) by simp
    then show ?thesis using Cons.IH[OF t] Cons.prems(3,4) by simp
  qed
qed

lemma textured_keeps:
  "traverseViewMode ''textured'' ns h = Returned h' \<Longrightarrow> \<forall>c \<in> set ns. records h0 c \<Longrightarrow>
   mapTex (h0 r) = Some t \<Longrightarrow> mapTex (h r) = Some t \<Longrightarrow> \<not> wireframe (h r) \<Longrightarrow>
   mapTex (h' r) = Some t \<and> \<not> wireframe (h' r)"
proof (induction ns arbitrary: h)
  case Nil then show ?case by simp
next
  case (Cons c cs)
  from Cons.prems(1) obtain h1 where
    a: "applyViewMode ''textured'' c h = Returned h1" and t: "traverseViewMode ''textured'' cs h1 = Returned h'"
    by (auto split: outcome.splits)
  have rc: "records h0 c" using Cons.prems(2) by simp
  have "mapTex (h1 r) = Some t \<and> \<not> wireframe (h1 r)"
    using a rc Cons.prems(3,4,5)
    by (auto simp: applyViewMode_def records_def split: if_splits material_slot.splits option.splits)
  then show ?case using Cons.IH[OF t, of ] Cons.prems(2,3) by simp
qed

lemma textured_restores:
  "traverseViewMode ''textured'' ns h = Returned h' \<Longrightarrow> \<forall>c \<in> set ns. records h0 c \<Longrightarrow>
   c \<in> set ns \<Longrightarrow> isMesh c \<Longrightarrow> material c = Single r \<Longrightarrow> mapTex (h0 r) = Some t \<Longrightarrow>
   mapTex (h' r) = Some t \<and> \<not> wireframe (h' r)"
proof (induction ns arbitrary: h)
  case Nil then show ?case by simp
next
  case (Cons d ds)
  from Cons.prems(1) obtain h1 where
    a: "applyViewMode ''textured'' d h = Returned h1" and t: "traverseViewMode ''textured'' ds h1 = Returned h'"
    by (auto split: outcome.splits)
  have rest: "\<forall>c \<in> set ds. records h0 c" using Cons.prems(2) by simp
  show ?case
  proof (cases "c = d")
    case True
    have "records h0 d" using Cons.prems(2) by simp
    then have "originalMap d = Some t"
      using True Cons.prems(4,5,6) by (auto simp: records_def)
    then have "mapTex (h1 r) = Some t \<and> \<not> wireframe (h1 r)"
      using a True Cons.prems(4,5) by (auto simp: applyViewMode_def split: if_splits)
    then show ?thesis using textured_keeps[OF t rest Cons.prems(6)] by simp
  next
    case False
    then have "c \<in> set ds" using Cons.prems(3) by simp
    then show ?thesis using Cons.IH[OF t rest] Cons.prems(4,5,6) by simp
  qed
qed

lemma nodes_prepare: "nodes (prepare mobile (normalize g)) = fst (setupMaterials mobile (nodes g) (materials g))"
  by (simp add: prepare_def normalize_def Let_def)

lemma materials_prepare: "materials (prepare mobile (normalize g)) = snd (setupMaterials mobile (nodes g) (materials g))"
  by (simp add: prepare_def normalize_def Let_def)

lemma list_all2_setD:
  "list_all2 P xs ys \<Longrightarrow> y \<in> set ys \<Longrightarrow> \<exists>x \<in> set xs. P x y"
  by (induction rule: list_all2_induct) auto

lemma list_all2_setD1:
  "list_all2 P xs ys \<Longrightarrow> x \<in> set xs \<Longrightarrow> \<exists>y \<in> set ys. P x y"
  by (induction rule: list_all2_induct) auto

text \<open>
  Claim C6. On a loaded model whose meshes all have a material (as every mesh of the
  backend has), \<open>setViewMode('solid')\<close> and then \<open>setViewMode('textured')\<close> both return,
  and for every mesh with one material whose texture map was recorded at load time,
  the material has no map after the first call and carries the recorded texture
  reference, with the wireframe flag cleared, after the second. Materials may be
  shared between meshes, and the materials may be in any state that earlier mode
  switches have left: only the parts of the model are those of the load.
\<close>

theorem view_mode_round_trip:
  assumes loaded: "model v = Some m"
    and parts: "nodes m = nodes (prepare mobile (normalize gltf))"
    and mats: "\<forall>c \<in> set (nodes gltf). isMesh c \<longrightarrow> material c \<noteq> NoMaterial"
  shows "\<exists>v1 v2 m1 m2.
     setViewMode ''solid'' v = Returned v1 \<and> model v1 = Some m1 \<and>
     setViewMode ''textured'' v1 = Returned v2 \<and> model v2 = Some m2 \<and>
     (\<forall>c \<in> set (nodes gltf). \<forall>r t.
        isMesh c \<and> material c = Single r \<and> mapTex (materials gltf r) = Some t \<longrightarrow>
        mapTex (materials m1 r) = None \<and>
        mapTex (materials m2 r) = Some t \<and> \<not> wireframe (materials m2 r))"
proof -
  let ?ns = "nodes m" and ?orig = "materials gltf"
  have rel: "list_all2 (\<lambda>a b. same_part a b \<and> records ?orig b) (nodes gltf) ?ns"
    by (simp add: parts nodes_prepare setupMaterials_nodes)
  have ok: "\<forall>c \<in> set ?ns. isMesh c \<longrightarrow> material c \<noteq> NoMaterial"
    using list_all2_setD[OF rel] mats by (fastforce simp: same_part_def)
  have rec: "\<forall>c \<in> set ?ns. records ?orig c"
    using list_all2_setD[OF rel] by blast
  obtain h1 where s1: "traverseViewMode ''solid'' ?ns (materials m) = Returned h1"
    using traverse_returns[OF ok] by blast
  obtain h2 where s2: "traverseViewMode ''textured'' ?ns h1 = Returned h2"
    using traverse_returns[OF ok] by blast
  let ?va = "v\<lparr>viewMode := ''solid'', model := Some (m\<lparr>materials := h1\<rparr>)\<rparr>"
  let ?vb = "?va\<lparr>viewMode := ''textured'', model := Some (m\<lparr>materials := h2\<rparr>)\<rparr>"
  have r1: "setViewMode ''solid'' v = Returned ?va"
    using loaded s1 by (simp add: setViewMode_def)
  have r2: "setViewMode ''textured'' ?va = Returned ?vb"
    using s2 by (simp add: setViewMode_def)
  have main: "\<forall>c \<in> set (nodes gltf). \<forall>r t.
        isMesh c \<and> material c = Single r \<and> mapTex (?orig r) = Some t \<longrightarrow>
        mapTex (h1 r) = None \<and> mapTex (h2 r) = Some t \<and> \<not> wireframe (h2 r)"
  proof (intro ballI allI impI)
    fix c r t
    assume c: "c \<in> set (nodes gltf)"
      and p: "isMesh c \<and> material c = Single r \<and> mapTex (?orig r) = Some t"
    obtain c' where c': "c' \<in> set ?ns" "isMesh c'" "material c' = Single r"
      using list_all2_setD1[OF rel c] p by (auto simp: same_part_def)
    have a: "mapTex (h1 r) = None" using solid_clears[OF s1 c'] .
    have b: "mapTex (h2 r) = Some t \<and> \<not> wireframe (h2 r)"
      using textured_restores[OF s2 rec c'] p by simp
    show "mapTex (h1 r) = None \<and> mapTex (h2 r) = Some t \<and> \<not> wireframe (h2 r)"
      using a b by simp
  qed
  have fin: "setViewMode ''solid'' v = Returned ?va \<and> model ?va = Some (m\<lparr>materials := h1\<rparr>) \<and>
     setViewMode ''textured'' ?va = Returned ?vb \<and> model ?vb = Some (m\<lparr>materials := h2\<rparr>) \<and>
     (\<forall>c \<in> set (nodes gltf). \<forall>r t.
        isMesh c \<and> material c = Single r \<and> mapTex (materials gltf r) = Some t \<longrightarrow>
        mapTex (materials (m\<lparr>materials := h1\<rparr>) r) = None \<and>
        mapTex (materials (m\<lparr>materials := h2\<rparr>) r) = Some t \<and>
        \<not> wireframe (materials (m\<lparr>materials := h2\<rparr>) r))"
    using r1 r2 main by simp
  show ?thesis
    by (rule exI[of _ ?va], rule exI[of _ ?vb], rule exI[of _ "m\<lparr>materials := h1\<rparr>"],
        rule exI[of _ "m\<lparr>materials := h2\<rparr>"], rule fin)
qed

text \<open>The traversal leaves the parts of the model as they are, so the hypothesis on
  the parts holds after any number of mode switches.\<close>

lemma setViewMode_nodes:
  "model v = Some m \<Longrightarrow>
   map_option nodes (model (state_of (setViewMode mode v))) = Some (nodes m)"
  by (simp add: setViewMode_def split: outcome.splits)

theorem view_mode_round_trip_witness:
  "model loaded_viewer = Some (prepare False (normalize (house 1))) \<and>
   wall_mesh \<in> set (nodes (house 1)) \<and> isMesh wall_mesh \<and> material wall_mesh = Single 5 \<and>
   mapTex (materials (house 1) 5) = Some 7 \<and>
   (\<exists>v1 v2 m1 m2.
      setViewMode ''solid'' loaded_viewer = Returned v1 \<and> model v1 = Some m1 \<and>
      setViewMode ''textured'' v1 = Returned v2 \<and> model v2 = Some m2 \<and>
      mapTex (materials m1 5) = None \<and> mapTex (materials m2 5) = Some 7 \<and>
      \<not> wireframe (materials m2 5))"
proof -
  have ret: "returned (loadModel_onLoad (house 1) ready)"
    by (simp add: ready_def eval_defs)
  then obtain s' where r: "loadModel_onLoad (house 1) ready = Returned s'"
    by (cases "loadModel_onLoad (house 1) ready") simp_all
  have mob: "\<not> isMobile (fst ready)"
    by (simp add: ready_def eval_defs)
  have l: "model loaded_viewer = Some (prepare False (normalize (house 1)))"
    using onLoad_model[OF r] r mob by (simp add: loaded_viewer_def)
  have m: "\<forall>c \<in> set (nodes (house 1)). isMesh c \<longrightarrow> material c \<noteq> NoMaterial"
    by (simp add: house_def group_node_def wall_mesh_def)
  have w: "wall_mesh \<in> set (nodes (house 1)) \<and> isMesh wall_mesh \<and> material wall_mesh = Single 5 \<and>
           mapTex (materials (house 1) 5) = Some 7"
    by (simp add: house_def wall_mesh_def brick_def)
  from view_mode_round_trip[OF l refl m] w l show ?thesis by blast
qed

section \<open>Replacing the model\<close>

lemma andThen_cases:
  "(\<And>s1. r = Threw s1 \<Longrightarrow> P s1) \<Longrightarrow> (\<And>s1. r = Returned s1 \<Longrightarrow> P (state_of (f s1))) \<Longrightarrow>
   P (state_of (andThen r f))"
  by (cases r) simp_all

lemma model_roots_append [simp]: "model_roots (xs @ ys) = model_roots xs @ model_roots ys"
  by (induction xs rule: model_roots.induct) simp_all

lemma model_roots_remove1_light [simp]: "model_roots (remove1 (Light l) cs) = model_roots cs"
  by (induction cs rule: model_roots.induct) auto

lemma model_roots_remove1_root [simp]:
  "model_roots (remove1 (ModelRoot r) cs) = remove1 r (model_roots cs)"
  by (induction cs rule: model_roots.induct) auto

lemma aview_scene_add_light: "aview (state_of (scene_add (Light l) s)) = aview s"
  by (simp add: scene_add_def aview_def attached_def current_def split: option.splits)

lemma aview_showLoading: "aview (state_of (showLoading x s)) = aview s"
  by (simp add: showLoading_def aview_def split: option.splits)

lemma aview_updateLoadingProgress: "aview (state_of (updateLoadingProgress x s)) = aview s"
  by (simp add: updateLoadingProgress_def aview_def split: option.splits)

lemma aview_showError: "aview (state_of (showError x s)) = aview s"
  by (simp add: showError_def aview_def split: option.splits)

lemma aview_animate: "aview (animate s) = aview s"
  by (simp add: animate_def aview_def Let_def attached_def current_def)

lemma aview_startAutoRotate: "aview (state_of (startAutoRotate s)) = aview s"
  by (simp add: startAutoRotate_def aview_def attached_def current_def split: option.splits)

lemma aview_stopAutoRotate: "aview (state_of (stopAutoRotate s)) = aview s"
  by (simp add: stopAutoRotate_def aview_def attached_def current_def split: option.splits)

lemma aview_emit_snd: "aview (fst s, b) = aview s"
  by (simp add: aview_def)

lemma aview_loadModel: "aview (state_of (loadModel p s)) = aview s"
  unfolding loadModel_def
  by (intro andThen_state[where P="\<lambda>t. aview t = aview s"])
     (simp_all add: aview_showLoading aview_emit_snd)

lemma aview_onProgress: "aview (state_of (loadModel_onProgress p s)) = aview s"
  by (simp add: loadModel_onProgress_def aview_updateLoadingProgress)

lemma aview_onError: "aview (state_of (loadModel_onError s)) = aview s"
  unfolding loadModel_onError_def
  by (intro andThen_state[where P="\<lambda>t. aview t = aview s"])
     (simp_all add: aview_showError aview_showLoading aview_emit_snd)

lemma aview_setViewMode: "aview (state_of (setViewMode m (fst s)), snd s) = aview s"
  by (simp add: setViewMode_def aview_def attached_def current_def split: option.splits outcome.splits)

lemma aview_handleResize: "aview (handleResize s) = aview s"
  by (simp add: handleResize_def aview_def attached_def current_def Let_def split: option.splits)

lemma aview_run_frame: "aview (run_frame h s) = aview s"
  by (simp add: run_frame_def aview_animate) (simp add: aview_def)

lemma aview_handleVisibilityChange: "aview (handleVisibilityChange s) = aview s"
  by (simp add: handleVisibilityChange_def Let_def aview_animate split: option.splits)
     (simp add: aview_def attached_def current_def)

lemma aview_touchstart: "aview (touchstart ts (fst s), snd s) = aview s"
  by (simp add: touchstart_def aview_def attached_def current_def split: list.splits)

lemma aview_touchmove: "aview (state_of (touchmove ts (fst s)), snd s) = aview s"
  by (simp add: touchmove_def pinch_def aview_def attached_def current_def Let_def
        split: list.splits option.splits)

lemma aview_touchend: "aview (touchend (fst s), snd s) = aview s"
  by (simp add: touchend_def aview_def attached_def current_def)

lemma scene_ok_aview: "aview s' = aview s \<Longrightarrow> scene_ok (fst s') = scene_ok (fst s)"
  by (simp add: aview_def scene_ok_def)

lemma aview_setupLighting: "aview (state_of (setupLighting s)) = aview s"
  unfolding setupLighting_def
  by (intro andThen_state[where P="\<lambda>t. aview t = aview s"]) (simp_all add: aview_scene_add_light)

lemma aview_setupControls: "aview (state_of (setupControls s)) = aview s"
  by (simp add: setupControls_def aview_def attached_def current_def)

lemma aview_setupTouchHandlers: "aview (setupTouchHandlers s) = aview s"
  by (simp add: setupTouchHandlers_def aview_def)

lemma aview_subscribe: "aview (subscribe s) = aview s"
  by (simp add: subscribe_def aview_def attached_def current_def)

lemma scene_ok_init: "scene_ok (fst s) \<Longrightarrow> scene_ok (fst (state_of (init s)))"
proof (cases "isInitialized (fst s)")
  case True then show "scene_ok (fst s) \<Longrightarrow> ?thesis" by (simp add: init_def)
next
  case False
  let ?v1 = "(fst s)\<lparr>scene := Some \<lparr>children = [], background = 0x0a0e27\<rparr>\<rparr>"
  have fresh: "\<And>v b. attached v = [] \<Longrightarrow> scene_ok v"
    by (simp add: scene_ok_def)
  show ?thesis
  proof (cases "canvas_el (fst s) (snd s)")
    case None with False show ?thesis
      by (simp add: init_def Let_def scene_ok_def attached_def)
  next
    case (Some e)
    show ?thesis
    proof (cases "webgl (snd s)")
      case w: False
      with False Some show ?thesis
        by (simp add: init_def Let_def emit_def scene_ok_def attached_def)
    next
      case w: True
      have "\<And>t. scene_ok (fst t) \<Longrightarrow>
         scene_ok (fst (state_of (andThen (andThen (setupLighting t) setupControls)
                         (\<lambda>s1. Returned (subscribe (setupTouchHandlers s1))))))"
        by (intro andThen_state[where P="\<lambda>t. scene_ok (fst t)"])
           (simp_all add: scene_ok_aview[OF aview_setupLighting] scene_ok_aview[OF aview_setupControls]
              scene_ok_aview[OF aview_subscribe] scene_ok_aview[OF aview_setupTouchHandlers])
      with False Some w show ?thesis
        by (simp add: init_def Let_def emit_def scene_ok_def attached_def)
    qed
  qed
qed

lemma scene_ok_dispose: "scene_ok (fst (dispose s))"
  by (simp add: dispose_def Let_def scene_ok_def attached_def)

lemma removeOld_Threw: "removeOldModel s = Threw s1 \<Longrightarrow> s1 = s"
  by (auto simp: removeOldModel_def scene_remove_def split: option.splits)

lemma removeOld_Returned:
  assumes "removeOldModel s = Returned s1" and "scene_ok (fst s)"
  shows "attached (fst s1) = []"
proof (cases "model (fst s)")
  case None
  then show ?thesis using assms
    by (auto simp: removeOldModel_def scene_ok_def current_def)
next
  case (Some old)
  then show ?thesis using assms
    by (auto simp: removeOldModel_def scene_remove_def scene_ok_def current_def attached_def
          split: option.splits)
qed

lemma scene_ok_store_add:
  assumes "attached (fst s1) = []"
  shows "scene_ok (fst (state_of (scene_add (ModelRoot (object_id g))
           ((fst s1)\<lparr>model := Some (prepare mobile (normalize g))\<rparr>, snd s1))))"
  using assms
  by (simp add: scene_add_def scene_ok_def attached_def current_def prepare_def normalize_def Let_def
        split: option.splits)

lemma scene_ok_onLoad:
  assumes "scene_ok (fst s)" shows "scene_ok (fst (state_of (loadModel_onLoad g s)))"
  unfolding loadModel_onLoad_def
proof (rule andThen_cases[where P="\<lambda>t. scene_ok (fst t)"])
  fix s1 assume "removeOldModel s = Threw s1"
  then show "scene_ok (fst s1)" using assms removeOld_Threw by blast
next
  fix s1 assume r: "removeOldModel s = Returned s1"
  have a: "attached (fst s1) = []" using removeOld_Returned[OF r assms] .
  show "scene_ok (fst (state_of (andThen (scene_add (ModelRoot (object_id g))
            ((fst s1)\<lparr>model := Some (prepare (isMobile (fst s1)) (normalize g))\<rparr>, snd s1))
          (\<lambda>s2. andThen (showLoading False s2)
            (\<lambda>s3. startAutoRotate (if \<not> has_handle (fst s3) then animate s3 else s3))))))"
  proof (intro andThen_state[where P="\<lambda>t. scene_ok (fst t)"])
    show "scene_ok (fst (state_of (scene_add (ModelRoot (object_id g))
            ((fst s1)\<lparr>model := Some (prepare (isMobile (fst s1)) (normalize g))\<rparr>, snd s1))))"
      using a by (rule scene_ok_store_add)
  next
    fix s2 :: vstate assume "scene_ok (fst s2)"
    then show "scene_ok (fst (state_of (showLoading False s2)))"
      by (simp add: scene_ok_aview[OF aview_showLoading])
  next
    fix s3 :: vstate assume "scene_ok (fst s3)"
    then show "scene_ok (fst (state_of (startAutoRotate (if \<not> has_handle (fst s3) then animate s3 else s3))))"
      by (simp add: scene_ok_aview[OF aview_startAutoRotate] scene_ok_aview[OF aview_animate])
  qed
qed

lemma scene_ok_step: "scene_ok (fst s) \<Longrightarrow> scene_ok (fst (step a s))"
proof (cases a)
  case (VisibilityChange h)
  assume "scene_ok (fst s)"
  then have "scene_ok (fst (fst s, (snd s)\<lparr>hidden := h\<rparr>))" by simp
  then show ?thesis using VisibilityChange
    by (simp add: scene_ok_aview[OF aview_handleVisibilityChange])
qed (simp_all add: scene_ok_init scene_ok_aview[OF aview_loadModel]
      scene_ok_onLoad scene_ok_aview[OF aview_onProgress] scene_ok_aview[OF aview_onError]
      scene_ok_aview[OF aview_setViewMode, simplified] scene_ok_aview[OF aview_handleResize]
      scene_ok_aview[OF aview_run_frame] scene_ok_aview[OF aview_touchstart, simplified]
      scene_ok_aview[OF aview_touchmove, simplified] scene_ok_aview[OF aview_touchend, simplified]
      scene_ok_aview[OF aview_stopAutoRotate] scene_ok_dispose)

lemma scene_ok_run: "scene_ok (fst s) \<Longrightarrow> scene_ok (fst (run as s))"
  by (induction as arbitrary: s) (simp_all add: scene_ok_step)

lemma scene_ok_fresh: "scene_ok (ModelViewer cid b)"
  by (simp add: scene_ok_def attached_def ModelViewer_def)

lemma scene_ok_length: "scene_ok v \<Longrightarrow> length (attached v) \<le> 1"
  by (auto simp: scene_ok_def current_def split: option.splits)

lemma canvasId_fview: "fview s' = fview s \<Longrightarrow> canvasId (fst s') = canvasId (fst s)"
  by (simp add: fview_def)

lemma appends_refl: "appends s s"
  by (simp add: appends_def)

lemma appends_trans:
  assumes "appends s t" and "appends t u" shows "appends s u"
proof -
  from assms obtain es1 es2 where c: "canvasId (fst t) = canvasId (fst s)" "canvasId (fst u) = canvasId (fst s)"
    and e1: "effects (snd t) = effects (snd s) @ map (Pair (canvasId (fst s))) es1"
    and e2: "effects (snd u) = effects (snd t) @ map (Pair (canvasId (fst s))) es2"
    unfolding appends_def by auto
  have "effects (snd u) = effects (snd s) @ map (Pair (canvasId (fst s))) (es1 @ es2)"
    using e1 e2 by simp
  then show ?thesis using c unfolding appends_def by blast
qed

lemma appends_fields:
  "canvasId v = canvasId (fst s) \<Longrightarrow> effects b = effects (snd s) \<Longrightarrow> appends s (v, b)"
  by (simp add: appends_def)

lemma appends_emit:
  assumes "appends s (v, b)" shows "appends s (v, emit (canvasId (fst s)) es b)"
proof -
  from assms obtain es0 where c: "canvasId v = canvasId (fst s)"
    and e: "effects b = effects (snd s) @ map (Pair (canvasId (fst s))) es0"
    unfolding appends_def by auto
  have "effects (emit (canvasId (fst s)) es b) =
        effects (snd s) @ map (Pair (canvasId (fst s))) (es0 @ es)"
    using e by (simp add: emit_def)
  then show ?thesis using c unfolding appends_def by (metis fst_conv snd_conv)
qed

lemma appendsI:
  "canvasId (fst s') = canvasId (fst s) \<Longrightarrow>
   effects (snd s') = effects (snd s) @ map (Pair (canvasId (fst s))) es \<Longrightarrow> appends s s'"
  unfolding appends_def by blast

lemma effects_showLoading: "effects (snd (state_of (showLoading x s))) = effects (snd s)"
  by (simp add: showLoading_def set_canvas_el_def split: option.splits)

lemma appends_showLoading: "appends s (state_of (showLoading x s))"
  by (rule appendsI[where es="[]"])
     (simp_all add: canvasId_fview[OF fview_showLoading] effects_showLoading)

lemma effects_animate:
  "effects (snd (animate s)) = effects (snd s) @ map (Pair (canvasId (fst s)))
     (FrameRequested (Suc (frameCounter (snd s))) #
      (if hidden (snd s) then []
       else (if controls (fst s) \<noteq> None then [ControlsUpdate] else []) @
            (if renderer (fst s) \<noteq> None \<and> scene (fst s) \<noteq> None \<and> camera (fst s) \<noteq> None
             then [Rendered] else [])))"
  by (simp add: animate_def Let_def emit_def)

lemma appends_animate: "appends s (animate s)"
  by (rule appendsI[OF _ effects_animate]) simp

lemma effects_startAutoRotate:
  "effects (snd (state_of (startAutoRotate s))) = effects (snd s) @ map (Pair (canvasId (fst s)))
     (if controls (fst s) = None then [] else [TimeoutSet 2000])"
  by (simp add: startAutoRotate_def emit_def split: option.splits)

lemma appends_startAutoRotate: "appends s (state_of (startAutoRotate s))"
  by (rule appendsI[OF _ effects_startAutoRotate])
     (simp add: canvasId_fview[OF fview_startAutoRotate])

lemma mview_tail:
  "mview (state_of (andThen (showLoading False s2)
      (\<lambda>s3. startAutoRotate (if \<not> has_handle (fst s3) then animate s3 else s3)))) = mview s2"
  by (intro andThen_state[where P="\<lambda>t. mview t = mview s2"])
     (simp_all add: mview_showLoading mview_startAutoRotate mview_animate)

lemma aview_tail:
  "aview (state_of (andThen (showLoading False s2)
      (\<lambda>s3. startAutoRotate (if \<not> has_handle (fst s3) then animate s3 else s3)))) = aview s2"
  by (intro andThen_state[where P="\<lambda>t. aview t = aview s2"])
     (simp_all add: aview_showLoading aview_startAutoRotate aview_animate)

lemma appends_tail:
  "appends s2 (state_of (andThen (showLoading False s2)
      (\<lambda>s3. startAutoRotate (if \<not> has_handle (fst s3) then animate s3 else s3))))"
proof (intro andThen_state[where P="appends s2"])
  show "appends s2 (state_of (showLoading False s2))" by (rule appends_showLoading)
next
  fix s3 assume a: "appends s2 s3"
  have "appends s3 (if \<not> has_handle (fst s3) then animate s3 else s3)"
    by (simp add: appends_animate appends_refl)
  then have "appends s3 (state_of (startAutoRotate (if \<not> has_handle (fst s3) then animate s3 else s3)))"
    using appends_startAutoRotate appends_trans by blast
  then show "appends s2 (state_of (startAutoRotate (if \<not> has_handle (fst s3) then animate s3 else s3)))"
    using a appends_trans by blast
qed

lemma onLoad_replaces:
  assumes m: "model (fst s) = Some old" and sc: "scene (fst s) = Some sc"
  shows "(\<exists>rest. effects (snd (state_of (loadModel_onLoad g s))) =
            effects (snd s) @ map (Pair (canvasId (fst s)))
              (SceneRemove (ModelRoot (object_id old)) # disposeModel old @
               SceneAdd (ModelRoot (object_id g)) # rest)) \<and>
         model (fst (state_of (loadModel_onLoad g s))) =
            Some (prepare (isMobile (fst s)) (normalize g)) \<and>
         (scene_ok (fst s) \<longrightarrow> attached (fst (state_of (loadModel_onLoad g s))) = [object_id g])"
proof -
  let ?cid = "canvasId (fst s)"
  let ?sa = "((fst s)\<lparr>scene := Some (sc\<lparr>children := remove1 (ModelRoot (object_id old)) (children sc)\<rparr>)\<rparr>,
              emit ?cid (disposeModel old) (emit ?cid [SceneRemove (ModelRoot (object_id old))] (snd s)))"
  let ?prep = "prepare (isMobile (fst s)) (normalize g)"
  let ?sb = "((fst ?sa)\<lparr>model := Some ?prep,
                scene := Some (sc\<lparr>children :=
                  remove1 (ModelRoot (object_id g))
                    (remove1 (ModelRoot (object_id old)) (children sc)) @ [ModelRoot (object_id g)]\<rparr>)\<rparr>,
              emit ?cid [SceneAdd (ModelRoot (object_id g))] (snd ?sa))"
  let ?tail = "\<lambda>s2. andThen (showLoading False s2)
      (\<lambda>s3. startAutoRotate (if \<not> has_handle (fst s3) then animate s3 else s3))"
  have r1: "removeOldModel s = Returned ?sa"
    using m sc by (simp add: removeOldModel_def scene_remove_def)
  have eq: "loadModel_onLoad g s = ?tail ?sb"
    by (simp add: loadModel_onLoad_def r1 scene_add_def)
  have eb: "effects (snd ?sb) = effects (snd s) @ map (Pair ?cid)
              (SceneRemove (ModelRoot (object_id old)) # disposeModel old @ [SceneAdd (ModelRoot (object_id g))])"
    by (simp add: emit_def)
  have cb: "canvasId (fst ?sb) = ?cid" by simp
  from appends_tail[of ?sb] obtain es where
    es: "effects (snd (state_of (?tail ?sb))) = effects (snd ?sb) @ map (Pair ?cid) es"
    unfolding appends_def cb by blast
  have 1: "\<exists>rest. effects (snd (state_of (loadModel_onLoad g s))) =
            effects (snd s) @ map (Pair ?cid)
              (SceneRemove (ModelRoot (object_id old)) # disposeModel old @
               SceneAdd (ModelRoot (object_id g)) # rest)"
    unfolding eq es eb by (intro exI[of _ es]) simp
  have 2: "model (fst (state_of (loadModel_onLoad g s))) = Some ?prep"
    using mview_tail[of ?sb] unfolding eq by (simp add: mview_def)
  have 3: "scene_ok (fst s) \<longrightarrow> attached (fst (state_of (loadModel_onLoad g s))) = [object_id g]"
  proof
    assume ok: "scene_ok (fst s)"
    have "attached (fst ?sa) = []"
      using removeOld_Returned[OF r1 ok] .
    then have "attached (fst ?sb) = [object_id g]"
      by (simp add: attached_def)
    then show "attached (fst (state_of (loadModel_onLoad g s))) = [object_id g]"
      using aview_tail[of ?sb] unfolding eq by (simp add: aview_def)
  qed
  show ?thesis using 1 2 3 by blast
qed

lemma disposeMaterial_eq:
  "disposeMaterial mats r = map TextureDispose (textures (mats r)) @ [MaterialDispose r]"
  by (simp add: disposeMaterial_def textures_def dispose_texture_def split: option.splits)

lemma precedes_intro: "x \<in> set (A @ P) \<Longrightarrow> precedes x y (A @ P @ y # B)"
proof -
  assume x: "x \<in> set (A @ P)"
  have "dropWhile (\<lambda>z. z \<noteq> x) ((A @ P) @ y # B) = dropWhile (\<lambda>z. z \<noteq> x) (A @ P) @ y # B"
    by (rule dropWhile_append1[where x=x]) (use x in simp_all)
  then show ?thesis by (simp add: precedes_def)
qed

lemma concat_map_split:
  assumes "x \<in> set xs" obtains A B where "concat (map f xs) = A @ f x @ B"
proof -
  from assms obtain ys zs where "xs = ys @ x # zs" by (auto dest: split_list)
  then have "concat (map f xs) = concat (map f ys) @ f x @ concat (map f zs)" by simp
  then show ?thesis by (rule that)
qed

lemma disposeChild_split:
  assumes "r \<in> set (slot_refs (material c))"
  obtains A B where "disposeChild mats c = A @ disposeMaterial mats r @ B"
proof (cases "material c")
  case NoMaterial with assms show ?thesis by (simp add: slot_refs_def)
next
  case (Single r')
  with assms have "r' = r" by (simp add: slot_refs_def)
  with Single have "disposeChild mats c =
      (case geometry c of None \<Rightarrow> [] | Some g \<Rightarrow> [GeometryDispose g]) @ disposeMaterial mats r @ []"
    by (simp add: disposeChild_def)
  then show ?thesis by (rule that)
next
  case (Array rs)
  with assms have "r \<in> set rs" by (simp add: slot_refs_def)
  then obtain A B where "concat (map (disposeMaterial mats) rs) = A @ disposeMaterial mats r @ B"
    by (rule concat_map_split)
  with Array have "disposeChild mats c =
      ((case geometry c of None \<Rightarrow> [] | Some g \<Rightarrow> [GeometryDispose g]) @ A) @ disposeMaterial mats r @ B"
    by (simp add: disposeChild_def)
  then show ?thesis by (rule that)
qed

lemma disposeModel_complete:
  assumes c: "c \<in> set (nodes m)"
  shows "(\<forall>g. geometry c = Some g \<longrightarrow> GeometryDispose g \<in> set (disposeModel m)) \<and>
         (\<forall>r \<in> set (slot_refs (material c)).
            MaterialDispose r \<in> set (disposeModel m) \<and>
            (\<forall>t \<in> set (textures (materials m r)).
               precedes (TextureDispose t) (MaterialDispose r) (disposeModel m)))"
proof (intro conjI allI impI ballI)
  fix g assume "geometry c = Some g"
  then have "GeometryDispose g \<in> set (disposeChild (materials m) c)"
    by (simp add: disposeChild_def)
  then show "GeometryDispose g \<in> set (disposeModel m)"
    using c by (auto simp: disposeModel_def)
next
  fix r assume r: "r \<in> set (slot_refs (material c))"
  obtain A1 B1 where 1: "disposeModel m = A1 @ disposeChild (materials m) c @ B1"
    unfolding disposeModel_def by (rule concat_map_split[OF c])
  obtain A2 B2 where 2: "disposeChild (materials m) c = A2 @ disposeMaterial (materials m) r @ B2"
    by (rule disposeChild_split[OF r])
  have split: "disposeModel m =
      (A1 @ A2) @ map TextureDispose (textures (materials m r)) @ MaterialDispose r # (B2 @ B1)"
    unfolding 1 2 disposeMaterial_eq by simp
  show "MaterialDispose r \<in> set (disposeModel m)"
    unfolding split by simp
  fix t assume "t \<in> set (textures (materials m r))"
  then have "TextureDispose t \<in> set ((A1 @ A2) @ map TextureDispose (textures (materials m r)))"
    by simp
  then show "precedes (TextureDispose t) (MaterialDispose r) (disposeModel m)"
    unfolding split by (rule precedes_intro)
qed

lemma canvasId_onLoad: "canvasId (fst (state_of (loadModel_onLoad g s))) = canvasId (fst s)"
  unfolding loadModel_onLoad_def
proof (intro andThen_state[where P="\<lambda>t. canvasId (fst t) = canvasId (fst s)"])
  show "canvasId (fst (state_of (removeOldModel s))) = canvasId (fst s)"
    by (rule canvasId_fview[OF fview_removeOldModel])
next
  fix s1 :: vstate assume "canvasId (fst s1) = canvasId (fst s)"
  then show "canvasId (fst (state_of (scene_add (ModelRoot (object_id g))
         ((fst s1)\<lparr>model := Some (prepare (isMobile (fst s1)) (normalize g))\<rparr>, snd s1)))) = canvasId (fst s)"
    by (simp add: canvasId_fview[OF fview_scene_add])
next
  fix s2 :: vstate assume "canvasId (fst s2) = canvasId (fst s)"
  then show "canvasId (fst (state_of (showLoading False s2))) = canvasId (fst s)"
    by (simp add: canvasId_fview[OF fview_showLoading])
next
  fix s3 :: vstate assume "canvasId (fst s3) = canvasId (fst s)"
  then show "canvasId (fst (state_of (startAutoRotate (if \<not> has_handle (fst s3) then animate s3 else s3)))) = canvasId (fst s)"
    by (simp add: canvasId_fview[OF fview_startAutoRotate])
qed

lemma canvasId_handleVisibilityChange:
  "canvasId (fst (handleVisibilityChange s)) = canvasId (fst s)"
  by (simp add: handleVisibilityChange_def Let_def split: option.splits)

lemma canvasId_step: "canvasId (fst (step a s)) = canvasId (fst s)"
  by (cases a)
     (simp_all add: canvasId_fview[OF fview_init] canvasId_fview[OF fview_loadModel]
      canvasId_onLoad canvasId_fview[OF fview_onProgress] canvasId_fview[OF fview_onError]
      canvasId_fview[OF fview_setViewMode, simplified] canvasId_fview[OF fview_handleResize]
      run_frame_def canvasId_handleVisibilityChange
      canvasId_fview[OF fview_touchstart, simplified]
      canvasId_fview[OF fview_touchmove, simplified] canvasId_fview[OF fview_touchend, simplified]
      canvasId_fview[OF fview_stopAutoRotate])

lemma canvasId_run: "canvasId (fst (run as s)) = canvasId (fst s)"
  by (induction as arbitrary: s) (simp_all add: canvasId_step)

text \<open>
  Claim C1. In every state \<open>s\<close> that a run of a viewer reaches, and after one more
  completed load, at most one model is attached to the scene. If \<open>s\<close> has a current
  model and a scene, the completed load first removes that model from the scene, then
  disposes it, and only then attaches the new one, which is afterwards the only
  attached and the current model. The disposal is complete: for every part of the old
  model its geometry is disposed, and each of its materials is disposed after each
  of the material's texture maps (map, normalMap, roughnessMap, metalnessMap, as far as
  present).
\<close>

theorem load_keeps_one_model:
  assumes "s = run as (ModelViewer cid b, b)"
    and "s' = state_of (loadModel_onLoad gltf s)"
  shows "length (attached (fst s)) \<le> 1 \<and> length (attached (fst s')) \<le> 1 \<and>
    (\<forall>old. model (fst s) = Some old \<and> scene (fst s) \<noteq> None \<longrightarrow>
       (\<exists>rest. effects (snd s') =
          effects (snd s) @ map (Pair cid)
            (SceneRemove (ModelRoot (object_id old)) # disposeModel old @
             SceneAdd (ModelRoot (object_id gltf)) # rest)) \<and>
       attached (fst s') = [object_id gltf] \<and> current (fst s') = [object_id gltf] \<and>
       (\<forall>c \<in> set (nodes old).
          (\<forall>g. geometry c = Some g \<longrightarrow> GeometryDispose g \<in> set (disposeModel old)) \<and>
          (\<forall>r \<in> set (slot_refs (material c)).
             MaterialDispose r \<in> set (disposeModel old) \<and>
             (\<forall>t \<in> set (textures (materials old r)).
                precedes (TextureDispose t) (MaterialDispose r) (disposeModel old)))))"
proof -
  have ok: "scene_ok (fst s)"
    unfolding assms(1) by (rule scene_ok_run) (simp add: scene_ok_fresh)
  have ok': "scene_ok (fst s')"
    unfolding assms(2) using ok by (rule scene_ok_onLoad)
  have cid: "canvasId (fst s) = cid"
    unfolding assms(1) by (simp add: canvasId_run ModelViewer_def)
  have repl: "\<forall>old. model (fst s) = Some old \<and> scene (fst s) \<noteq> None \<longrightarrow>
       (\<exists>rest. effects (snd s') =
          effects (snd s) @ map (Pair cid)
            (SceneRemove (ModelRoot (object_id old)) # disposeModel old @
             SceneAdd (ModelRoot (object_id gltf)) # rest)) \<and>
       attached (fst s') = [object_id gltf] \<and> current (fst s') = [object_id gltf] \<and>
       (\<forall>c \<in> set (nodes old).
          (\<forall>g. geometry c = Some g \<longrightarrow> GeometryDispose g \<in> set (disposeModel old)) \<and>
          (\<forall>r \<in> set (slot_refs (material c)).
             MaterialDispose r \<in> set (disposeModel old) \<and>
             (\<forall>t \<in> set (textures (materials old r)).
                precedes (TextureDispose t) (MaterialDispose r) (disposeModel old))))"
  proof (intro allI impI)
    fix old assume a: "model (fst s) = Some old \<and> scene (fst s) \<noteq> None"
    then obtain sc where sc: "scene (fst s) = Some sc" by auto
    from a have m: "model (fst s) = Some old" by simp
    note r = onLoad_replaces[OF m sc, of gltf, folded assms(2), unfolded cid]
    have cur: "current (fst s') = [object_id gltf]"
      using r by (simp add: current_def prepare_def normalize_def Let_def)
    show "(\<exists>rest. effects (snd s') =
          effects (snd s) @ map (Pair cid)
            (SceneRemove (ModelRoot (object_id old)) # disposeModel old @
             SceneAdd (ModelRoot (object_id gltf)) # rest)) \<and>
       attached (fst s') = [object_id gltf] \<and> current (fst s') = [object_id gltf] \<and>
       (\<forall>c \<in> set (nodes old).
          (\<forall>g. geometry c = Some g \<longrightarrow> GeometryDispose g \<in> set (disposeModel old)) \<and>
          (\<forall>r \<in> set (slot_refs (material c)).
             MaterialDispose r \<in> set (disposeModel old) \<and>
             (\<forall>t \<in> set (textures (materials old r)).
                precedes (TextureDispose t) (MaterialDispose r) (disposeModel old))))"
    proof (intro conjI)
      show "\<exists>rest. effects (snd s') =
          effects (snd s) @ map (Pair cid)
            (SceneRemove (ModelRoot (object_id old)) # disposeModel old @
             SceneAdd (ModelRoot (object_id gltf)) # rest)"
        using r by (rule conjunct1)
      show "attached (fst s') = [object_id gltf]"
        using r ok by simp
      show "current (fst s') = [object_id gltf]" by (rule cur)
      show "\<forall>c \<in> set (nodes old).
          (\<forall>g. geometry c = Some g \<longrightarrow> GeometryDispose g \<in> set (disposeModel old)) \<and>
          (\<forall>r \<in> set (slot_refs (material c)).
             MaterialDispose r \<in> set (disposeModel old) \<and>
             (\<forall>t \<in> set (textures (materials old r)).
                precedes (TextureDispose t) (MaterialDispose r) (disposeModel old)))"
        by (rule ballI) (rule disposeModel_complete)
    qed
  qed
  show ?thesis
    by (intro conjI scene_ok_length[OF ok] scene_ok_length[OF ok'] repl)
qed

theorem load_keeps_one_model_witness:
  "attached (fst (run [Init, LoadModel ''house.glb'', LoadCompleted (house 1)]
      (ModelViewer ''viewer'' (page_with laid_out), page_with laid_out))) = [1] \<and>
   model loaded_viewer = Some (prepare False (normalize (house 1))) \<and>
   scene loaded_viewer \<noteq> None \<and>
   wall_mesh\<lparr>castShadow := True, receiveShadow := True, originalMap := Some 7\<rparr>
      \<in> set (nodes (prepare False (normalize (house 1)))) \<and>
   disposeModel (prepare False (normalize (house 1))) =
      [GeometryDispose 3, TextureDispose 7, TextureDispose 8, MaterialDispose 5] \<and>
   attached (fst (state_of (loadModel_onLoad (house 2)
      (run [Init, LoadModel ''house.glb'', LoadCompleted (house 1)]
        (ModelViewer ''viewer'' (page_with laid_out), page_with laid_out))))) = [2] \<and>
   precedes (TextureDispose 7) (MaterialDispose 5) (disposeModel (prepare False (normalize (house 1)))) \<and>
   precedes (TextureDispose 8) (MaterialDispose 5) (disposeModel (prepare False (normalize (house 1))))"
proof -
  let ?s = "run [Init, LoadModel ''house.glb'', LoadCompleted (house 1)]
      (ModelViewer ''viewer'' (page_with laid_out), page_with laid_out)"
  let ?old = "prepare False (normalize (house 1))"
  have lv: "fst ?s = loaded_viewer"
    by (simp add: loaded_viewer_def ready_def)
  have a: "attached (fst ?s) = [1]"
    by (simp add: eval_defs attached_def)
  have m: "model (fst ?s) = Some ?old"
    by (simp add: eval_defs)
  have sc: "scene (fst ?s) \<noteq> None"
    by (simp add: eval_defs)
  have n: "wall_mesh\<lparr>castShadow := True, receiveShadow := True, originalMap := Some 7\<rparr>
      \<in> set (nodes ?old)"
    by (simp add: eval_defs)
  have d: "disposeModel ?old = [GeometryDispose 3, TextureDispose 7, TextureDispose 8, MaterialDispose 5]"
    by (simp add: eval_defs)
  have t: "textures (materials ?old 5) = [7, 8]"
    by (simp add: eval_defs textures_def)
  have r: "slot_refs (material (wall_mesh\<lparr>castShadow := True, receiveShadow := True, originalMap := Some 7\<rparr>)) = [5]"
    by (simp add: slot_refs_def wall_mesh_def)
  from load_keeps_one_model[OF refl refl, of "[Init, LoadModel ''house.glb'', LoadCompleted (house 1)]"
      "''viewer''" "page_with laid_out" "house 2"]
  have "\<forall>old. model (fst ?s) = Some old \<and> scene (fst ?s) \<noteq> None \<longrightarrow>
       attached (fst (state_of (loadModel_onLoad (house 2) ?s))) = [object_id (house 2)] \<and>
       (\<forall>c \<in> set (nodes old).
          (\<forall>r \<in> set (slot_refs (material c)).
             (\<forall>t \<in> set (textures (materials old r)).
                precedes (TextureDispose t) (MaterialDispose r) (disposeModel old))))"
    by blast
  then have "attached (fst (state_of (loadModel_onLoad (house 2) ?s))) = [object_id (house 2)] \<and>
       (\<forall>c \<in> set (nodes ?old).
          (\<forall>r \<in> set (slot_refs (material c)).
             (\<forall>t \<in> set (textures (materials ?old r)).
                precedes (TextureDispose t) (MaterialDispose r) (disposeModel ?old))))"
    using m sc by blast
  then have "attached (fst (state_of (loadModel_onLoad (house 2) ?s))) = [2] \<and>
      precedes (TextureDispose 7) (MaterialDispose 5) (disposeModel ?old) \<and>
      precedes (TextureDispose 8) (MaterialDispose 5) (disposeModel ?old)"
    using n r t by (auto simp: house_def)
  then show ?thesis using a m sc n d lv by simp
qed

section \<open>The registry\<close>

lemma loadModel_viewer: "fst (state_of (loadModel p s)) = fst s"
  by (simp add: loadModel_def showLoading_def split: option.splits)

lemma on_viewer_same:
  "map_of vs cid = Some (fst (state_of r)) \<Longrightarrow> fst (state_of (on_viewer cid vs r)) = vs"
  by (cases r) (simp_all add: update_triv)

lemma on_viewer_state:
  "state_of (on_viewer cid vs r) = (AList.update cid (fst (state_of r)) vs, snd (state_of r))"
  by (cases r) simp_all


lemma get_or_create_own:
  "map_of vs cid = Some v \<Longrightarrow> get_or_create cid (vs, b) = Returned (vs, b)"
  by (simp add: get_or_create_def viewers_get_def)

lemma load3DModel_keeps_entry:
  assumes "map_of vs cid = Some v"
  shows "fst (state_of (load3DModel cid p (vs, b))) = vs"
proof (cases "three_loaded b")
  case False then show ?thesis by (simp add: load3DModel_def)
next
  case True
  have g: "get_or_create cid (vs, b) = Returned (vs, b)"
    using assms by (rule get_or_create_own)
  show ?thesis
  proof (cases "elements b cid")
    case None
    then show ?thesis using True g by (simp add: load3DModel_def)
  next
    case (Some e)
    then show ?thesis using True g assms
      by (simp add: load3DModel_def viewers_get_def on_viewer_same loadModel_viewer)
  qed
qed




lemma init_initialized: "isInitialized v \<Longrightarrow> init (v, b) = Returned (v, b)"
  by (simp add: init_def)



lemma Object_values_order:
  "map fst (viewers_put ''1'' v1 (viewers_put ''a'' va (viewers_put ''2'' v2
      (viewers_put ''b'' vb (viewers_put ''01'' v0 []))))) = [''1'', ''2'', ''01'', ''b'', ''a'']"
  by (simp add: viewers_put_def array_index_def)




text \<open>
  So it is for every inherited name that is not an own property: the call throws, and
  neither the registry nor the trace changes.
\<close>

lemma load3DModel_inherited:
  assumes "cid \<in> set Object_prototype" "map_of vs cid = None" "three_loaded b"
  shows "\<not> returned (load3DModel cid p (vs, b)) \<and>
         fst (state_of (load3DModel cid p (vs, b))) = vs \<and>
         effects (snd (state_of (load3DModel cid p (vs, b)))) = effects b"
  using assms
  by (simp add: load3DModel_def get_or_create_def viewers_get_def Let_def split: option.splits)

text \<open>\<open>init\<close> of a new viewer returns on the pages that have the canvas, WebGL and the controls.\<close>

lemma init_returns_iff:
  "returned (init (ModelViewer cid b, b)) = (elements b cid \<noteq> None \<and> webgl b \<and> orbit_loaded b)"
  by (auto simp: init_def ModelViewer_def canvas_el_def Let_def setupLighting_def scene_add_def
        setupControls_def emit_def split: option.splits)

text \<open>
  The page matters as well. Without three.js the guard of \<open>load3DModel\<close> returns before
  the registry is read. Without WebGL \<open>init\<close> throws at the renderer: the viewer is
  registered, not initialised, and the second call, which finds it, does not run
  \<open>init\<close> again, so renderer, lights, controls and subscriptions are never made.
\<close>

lemma load3DModel_without_three:
  "load3DModel ''viewer'' ''house.glb'' ([], (page_with laid_out)\<lparr>three_loaded := False\<rparr>) =
     Returned ([], (page_with laid_out)
       \<lparr>three_loaded := False, effects := [(''viewer'', ConsoleError ''Three.js is not loaded'')]\<rparr>)"
  by (simp add: load3DModel_def page_with_def emit_def)

lemma load3DModel_without_webgl:
  "\<not> returned (load3DModel ''viewer'' ''house.glb'' ([], (page_with laid_out)\<lparr>webgl := False\<rparr>)) \<and>
   map_option isInitialized (map_of (fst (state_of
     (load3DModel ''viewer'' ''house.glb'' ([], (page_with laid_out)\<lparr>webgl := False\<rparr>)))) ''viewer'')
     = Some False \<and>
   map snd (effects (snd (state_of (load3DModel ''viewer'' ''barn.glb'' (state_of
     (load3DModel ''viewer'' ''house.glb'' ([], (page_with laid_out)\<lparr>webgl := False\<rparr>)))))))
     = [SceneCreated, CameraCreated, LoadRequested ''barn.glb'']"
proof -
  let ?p = "(page_with laid_out)\<lparr>webgl := False\<rparr>"
  let ?v = "(ModelViewer ''viewer'' ?p)
      \<lparr>scene := Some \<lparr>children = [], background = 0x0a0e27\<rparr>,
       camera := Some \<lparr>aspect = js_div (Num 800) (Num 600), cam_position = vec 0 1 3\<rparr>\<rparr>"
  let ?b = "emit ''viewer'' [SceneCreated, CameraCreated] ?p"
  have i: "init (ModelViewer ''viewer'' ?p, ?p) = Threw (?v, ?b)"
    by (simp add: init_def ModelViewer_def page_with_def laid_out_def canvas_el_def emit_def Let_def)
  have g: "get_or_create ''viewer'' ([], ?p) = Threw ([(''viewer'', ?v)], ?b)"
    unfolding get_or_create_def
    by (simp add: i viewers_get_def Object_prototype_def viewers_put_def array_index_def)
  have f: "load3DModel ''viewer'' ''house.glb'' ([], ?p) = Threw ([(''viewer'', ?v)], ?b)"
    unfolding load3DModel_def g by (simp add: page_with_def)
  have s: "map snd (effects (snd (state_of
      (load3DModel ''viewer'' ''barn.glb'' ([(''viewer'', ?v)], ?b))))) =
      [SceneCreated, CameraCreated, LoadRequested ''barn.glb'']"
    by (simp add: load3DModel_def get_or_create_def viewers_get_def on_viewer_state
          loadModel_def showLoading_def canvas_el_def set_canvas_el_def ModelViewer_def
          page_with_def laid_out_def emit_def)
  show ?thesis unfolding f using s by (simp add: ModelViewer_def)
qed



lemma map_of_disposeAll:
  "map_of (fst (disposeAll vs b)) cid =
     map_option (\<lambda>v. v\<lparr>scene := None, camera := None, renderer := None, controls := None,
                        model := None\<rparr>) (map_of vs cid)"
proof (induction vs arbitrary: b)
  case Nil show ?case by simp
next
  case (Cons kv vs)
  show ?case
    using Cons.IH[of "snd (dispose (snd kv, b))"]
    by (cases kv) (simp add: Let_def dispose_viewer)
qed

lemma keys_disposeAll: "map fst (fst (disposeAll vs b)) = map fst vs"
  by (induction vs arbitrary: b) (simp_all add: Let_def)

text \<open>
  Claim C10. When the page is unloaded every registered viewer is disposed and stays
  registered under its identifier. A viewer that was initialised is still marked
  initialised, with scene, camera, renderer and controls \<open>null\<close>; \<open>init\<close> on it returns at
  once and acquires nothing; a later \<open>load3DModel\<close> for the identifier, returning or
  throwing, leaves the registry and the disposed viewer as they are.
\<close>

theorem disposed_viewer_stays_registered:
  assumes "map_of vs cid = Some v" and "isInitialized v"
  shows "\<exists>v1. map_of (fst (beforeunload (vs, b))) cid = Some v1 \<and>
      map fst (fst (beforeunload (vs, b))) = map fst vs \<and>
      isInitialized v1 \<and>
      scene v1 = None \<and> camera v1 = None \<and> renderer v1 = None \<and> controls v1 = None \<and>
      (\<forall>b'. init (v1, b') = Returned (v1, b')) \<and>
      (\<forall>p b'. fst (state_of (load3DModel cid p (fst (beforeunload (vs, b)), b'))) =
                fst (beforeunload (vs, b)))"
proof -
  let ?v1 = "v\<lparr>scene := None, camera := None, renderer := None, controls := None, model := None\<rparr>"
  have m: "map_of (fst (beforeunload (vs, b))) cid = Some ?v1"
    using assms(1) by (simp add: beforeunload_def map_of_disposeAll)
  have k: "map fst (fst (beforeunload (vs, b))) = map fst vs"
    by (simp add: beforeunload_def keys_disposeAll)
  have i: "\<forall>b'. init (?v1, b') = Returned (?v1, b')"
    using assms(2) by (simp add: init_initialized)
  have l: "\<forall>p b'. fst (state_of (load3DModel cid p (fst (beforeunload (vs, b)), b'))) =
                fst (beforeunload (vs, b))"
    using load3DModel_keeps_entry[OF m] by blast
  show ?thesis
    by (rule exI[of _ ?v1]) (use assms(2) in \<open>simp add: m k i l\<close>)
qed

theorem disposed_viewer_stays_registered_witness:
  "map_of (fst registered) ''viewer'' = Some loaded_viewer \<and> isInitialized loaded_viewer \<and>
   renderer loaded_viewer \<noteq> None \<and>
   (\<exists>v1. map_of (fst (beforeunload registered)) ''viewer'' = Some v1 \<and>
      isInitialized v1 \<and>
      scene v1 = None \<and> camera v1 = None \<and> renderer v1 = None \<and> controls v1 = None \<and>
      init (v1, snd (beforeunload registered)) = Returned (v1, snd (beforeunload registered)) \<and>
      fst (state_of (load3DModel ''viewer'' ''barn.glb'' (beforeunload registered))) =
        fst (beforeunload registered))"
proof -
  have m: "map_of (fst registered) ''viewer'' = Some loaded_viewer"
    by (simp add: registered_def)
  have v: "isInitialized loaded_viewer" "renderer loaded_viewer \<noteq> None"
    by (simp_all add: loaded_viewer_def ready_def eval_defs)
  from disposed_viewer_stays_registered[OF m v(1), of "snd registered"]
  obtain v1 where
    f0: "map_of (fst (beforeunload registered)) ''viewer'' = Some v1"
       "isInitialized v1 \<and>
        scene v1 = None \<and> camera v1 = None \<and> renderer v1 = None \<and> controls v1 = None"
    and f1: "\<forall>b'. init (v1, b') = Returned (v1, b')"
    and f2: "\<forall>p b'. fst (state_of (load3DModel ''viewer'' p (fst (beforeunload registered), b'))) =
                fst (beforeunload registered)"
    unfolding prod.collapse by blast
  have f3: "fst (state_of (load3DModel ''viewer'' ''barn.glb'' (beforeunload registered))) =
          fst (beforeunload registered)"
    using f2[rule_format, of "''barn.glb''" "snd (beforeunload registered)"] by simp
  note f = f0 f1[rule_format, of "snd (beforeunload registered)"] f3
  have "\<exists>v1. map_of (fst (beforeunload registered)) ''viewer'' = Some v1 \<and>
        isInitialized v1 \<and>
        scene v1 = None \<and> camera v1 = None \<and> renderer v1 = None \<and> controls v1 = None \<and>
        init (v1, snd (beforeunload registered)) = Returned (v1, snd (beforeunload registered)) \<and>
        fst (state_of (load3DModel ''viewer'' ''barn.glb'' (beforeunload registered))) =
          fst (beforeunload registered)"
    by (rule exI[of _ v1]) (use f in simp)
  then show ?thesis
    by (intro conjI m v)
qed

end
